theory Spec2Isabelle
  imports Main "HOL-Library.Word"
begin

unbundle bit_operations_syntax

section \<open>Live-state probes of a control plane (pkg/tasks/probes.go)\<close>

text \<open>
  A shallow embedding of \<^verbatim>\<open>pkg/tasks/probes.go\<close>: the status decoder
  \<^verbatim>\<open>systemdStatus\<close>, the three per-host checks and the reconciliation
  \<^verbatim>\<open>investigateCluster\<close>. Packages the file imports (ssh, yaml, semver, the
  Kubernetes client, apiserverstatus, etcdstatus, state) are not part of it; what they
  compute enters every definition as a parameter. Of \<^verbatim>\<open>runProbes\<close> only the
  construction of the live hosts is here; its parallel run of \<^verbatim>\<open>investigateHost\<close>
  over the hosts is not. The mutex, the logger and the lines printed to standard output
  are left out, except the two difference sets, which the function only prints.
\<close>

subsection \<open>Errors\<close>

text \<open>
  A Go \<^verbatim>\<open>error\<close> is a value. \<open>Collaborator\<close> is an error made by an imported
  package, named by its message; \<open>New\<close>, \<open>Wrap\<close> and \<open>Wrapf\<close> are the three constructors
  of \<^verbatim>\<open>github.com/pkg/errors\<close> the file calls. \<open>Wrapf cause format arg\<close> keeps the
  cause, the format string and the one argument the file passes.
\<close>

datatype error =
    Collaborator string
  | New string
  | Wrap error string
  | Wrapf error string string

text \<open>What an error value carries: the text of every message and argument in its chain.\<close>

fun carried :: "error \<Rightarrow> string set" where
  "carried (Collaborator msg) = {msg}"
| "carried (New msg) = {msg}"
| "carried (Wrap cause msg) = insert msg (carried cause)"
| "carried (Wrapf cause format arg) = insert format (insert arg (carried cause))"

subsection \<open>Strings\<close>

text \<open>
  Strings are byte lists, in UTF-8 as Go strings are. \<^verbatim>\<open>strings.TrimSpace\<close> removes
  the leading and the trailing white-space runes of \<^verbatim>\<open>unicode.IsSpace\<close>: the six
  ASCII ones (tab, line feed, vertical tab, form feed, carriage return, space), U+0085
  and U+00A0 (two bytes each), and U+1680, U+2000 to U+200A, U+2028, U+2029, U+202F,
  U+205F and U+3000 (three bytes each). A byte that starts no such encoding, a malformed
  one included, is no white space and stops the trimming.
\<close>

definition asciiSpace :: "char \<Rightarrow> bool" where
  "asciiSpace c = (c \<in> {CHR 0x09, CHR 0x0A, CHR 0x0B, CHR 0x0C, CHR 0x0D, CHR 0x20})"

definition space2 :: "char \<Rightarrow> char \<Rightarrow> bool" where
  "space2 a b = (a = CHR 0xC2 \<and> b \<in> {CHR 0x85, CHR 0xA0})"

definition space3 :: "char \<Rightarrow> char \<Rightarrow> char \<Rightarrow> bool" where
  "space3 a b c =
     ((a = CHR 0xE1 \<and> b = CHR 0x9A \<and> c = CHR 0x80)
      \<or> (a = CHR 0xE2 \<and> b = CHR 0x80
          \<and> c \<in> {CHR 0x80, CHR 0x81, CHR 0x82, CHR 0x83, CHR 0x84, CHR 0x85, CHR 0x86,
                 CHR 0x87, CHR 0x88, CHR 0x89, CHR 0x8A, CHR 0xA8, CHR 0xA9, CHR 0xAF})
      \<or> (a = CHR 0xE2 \<and> b = CHR 0x81 \<and> c = CHR 0x9F)
      \<or> (a = CHR 0xE3 \<and> b = CHR 0x80 \<and> c = CHR 0x80))"

text \<open>Trimming on the left: while the string starts with a white-space rune, drop it.\<close>

fun TrimLeftSpace :: "string \<Rightarrow> string" where
  "TrimLeftSpace (a # b # c # s) =
     (if asciiSpace a then TrimLeftSpace (b # c # s)
      else if space2 a b then TrimLeftSpace (c # s)
      else if space3 a b c then TrimLeftSpace s
      else a # b # c # s)"
| "TrimLeftSpace [a, b] =
     (if asciiSpace a then TrimLeftSpace [b]
      else if space2 a b then []
      else [a, b])"
| "TrimLeftSpace [a] = (if asciiSpace a then [] else [a])"
| "TrimLeftSpace [] = []"

text \<open>
  Trimming on the right, on the reversed string: while the string ends with a white-space
  rune, drop it. The argument is the string back to front, so its first byte is the last
  byte of the string.
\<close>

fun TrimRightSpaceRev :: "string \<Rightarrow> string" where
  "TrimRightSpaceRev (c # b # a # s) =
     (if asciiSpace c then TrimRightSpaceRev (b # a # s)
      else if space2 b c then TrimRightSpaceRev (a # s)
      else if space3 a b c then TrimRightSpaceRev s
      else c # b # a # s)"
| "TrimRightSpaceRev [c, b] =
     (if asciiSpace c then TrimRightSpaceRev [b]
      else if space2 b c then []
      else [c, b])"
| "TrimRightSpaceRev [c] = (if asciiSpace c then [] else [c])"
| "TrimRightSpaceRev [] = []"

definition TrimSpace :: "string \<Rightarrow> string" where
  "TrimSpace s = rev (TrimRightSpaceRev (rev (TrimLeftSpace s)))"

text \<open>
  \<^verbatim>\<open>strings.ReplaceAll(s, old, new)\<close> for a non-empty \<open>old\<close>: the non-overlapping
  occurrences of \<open>old\<close>, left to right, become \<open>new\<close>.
\<close>

function ReplaceAll :: "string \<Rightarrow> string \<Rightarrow> string \<Rightarrow> string" where
  "ReplaceAll s old new =
     (if s = [] then []
      else if old \<noteq> [] \<and> take (length old) s = old
        then new @ ReplaceAll (drop (length old) s) old new
        else hd s # ReplaceAll (tl s) old new)"
  by pat_completeness auto
termination
  by (relation "measure (\<lambda>(s, old, new). length s)") auto

declare ReplaceAll.simps [simp del]

subsection \<open>The command lines (lines 41-52)\<close>

text \<open>\<^verbatim>\<open>fmt.Sprintf(systemdShowStatusCMD, service)\<close>: the format has one \<^verbatim>\<open>%s\<close>.\<close>

definition systemdShowStatusCMD :: "string \<Rightarrow> string" where
  "systemdShowStatusCMD service =
     ''systemctl show '' @ service @ '' -p LoadState,ActiveState,SubState''"

definition dockerVersionDPKG :: string where
  "dockerVersionDPKG =
     ''dpkg-query --show --showformat='${Version}' docker-ce | cut -d: -f2 | cut -d~ -f1''"

definition dockerVersionRPM :: string where
  "dockerVersionRPM = ''rpm -qa --queryformat '%{RPMTAG_VERSION}' docker-ce''"

definition kubeletVersionDPKG :: string where
  "kubeletVersionDPKG =
     ''dpkg-query --show --showformat='${Version}' kubelet | cut -d- -f1''"

definition kubeletVersionRPM :: string where
  "kubeletVersionRPM = ''rpm -qa --queryformat '%{RPMTAG_VERSION}' kubelet''"

definition kubeletVersionCLI :: string where
  "kubeletVersionCLI = ''kubelet --version | cut -d' ' -f2''"

definition kubeletInitializedCMD :: string where
  "kubeletInitializedCMD = ''test -f /etc/kubernetes/kubelet.conf''"

subsection \<open>Status bitmask\<close>

type_synonym uint64 = "64 word"

text \<open>
  Modelled from the spec: the flag constants of package \<^verbatim>\<open>state\<close>, which the file
  uses by name and does not declare. The spec calls them independent flags combined by
  logical OR; their values are a parameter \<open>fl\<close> of every definition that uses one, and
  \<open>independent\<close> says what the spec says of them: each flag is a non-empty set of bits and
  no two flags share a bit.
\<close>

record StatusFlags =
  ComponentInstalled :: uint64
  SystemDStatusActive :: uint64
  SystemDStatusRunning :: uint64
  SystemDStatusRestarting :: uint64
  SystemdDStatusDead :: uint64
  SystemDStatusUnknown :: uint64
  KubeletInitialized :: uint64
  PodRunning :: uint64

fun disjoint_bits :: "uint64 list \<Rightarrow> bool" where
  "disjoint_bits [] = True"
| "disjoint_bits (x # xs) =
     (x \<noteq> 0 \<and> list_all (\<lambda>y. x AND y = 0) xs \<and> disjoint_bits xs)"

definition independent :: "StatusFlags \<Rightarrow> bool" where
  "independent fl =
     disjoint_bits
       [ComponentInstalled fl, SystemDStatusActive fl, SystemDStatusRunning fl,
        SystemDStatusRestarting fl, SystemdDStatusDead fl, SystemDStatusUnknown fl,
        KubeletInitialized fl, PodRunning fl]"

text \<open>The test the file prints with: \<^verbatim>\<open>status&flag != 0\<close>.\<close>

definition has :: "uint64 \<Rightarrow> uint64 \<Rightarrow> bool" where
  "has status flag = (status AND flag \<noteq> 0)"

subsection \<open>Data model\<close>

text \<open>
  Modelled from the spec: the type \<^verbatim>\<open>kubeoneapi.OperatingSystemName\<close> and its
  constants, which the file uses and does not declare. The file names five values in its
  switches (two of the RPM family, one of the DPKG family, two of the immutable family);
  every other value falls to the \<^verbatim>\<open>default\<close> branch, and \<open>OperatingSystemNameOther\<close>
  stands for those.
\<close>

datatype OperatingSystemName =
    OperatingSystemNameUbuntu
  | OperatingSystemNameCentOS
  | OperatingSystemNameRHEL
  | OperatingSystemNameFlatcar
  | OperatingSystemNameCoreOS
  | OperatingSystemNameOther string

text \<open>
  Modelled from the spec: \<^verbatim>\<open>kubeoneapi.HostConfig\<close>, with the three fields the file
  reads or writes: the hostname, the operating-system family and the leader flag.
\<close>

record HostConfig =
  Hostname :: string
  OperatingSystem :: OperatingSystemName
  IsLeader :: bool

text \<open>
  \<^verbatim>\<open>semver.Version\<close> of the imported library; \<open>zeroVersion\<close> is the value of
  \<^verbatim>\<open>&semver.Version{}\<close>, every field zero or empty.
\<close>

record semverVersion =
  major :: "64 word"
  minor :: "64 word"
  patch :: "64 word"
  pre :: string
  metadata :: string
  original :: string

definition zeroVersion :: semverVersion where
  "zeroVersion =
     \<lparr>major = 0, minor = 0, patch = 0, pre = [], metadata = [], original = []\<rparr>"

text \<open>
  Modelled from the spec: the component records of \<^verbatim>\<open>state.Host\<close>, which the file
  uses and does not declare. A record holds a status bitmask and a version, a pointer
  that is nil until a check sets it. The API server and etcd records only ever use the
  bitmask.
\<close>

record ComponentStatus =
  Version :: "semverVersion option"
  Status :: uint64

text \<open>
  Modelled from the spec: \<^verbatim>\<open>state.Host\<close>. \<open>Config\<close> is a pointer to an element of
  the configured host array (line 66): an address into the store \<open>Hosts\<close> of the state
  below, so that two live hosts may or may not share a configuration.
\<close>

record Host =
  Config :: nat
  ContainerRuntime :: ComponentStatus
  Kubelet :: ComponentStatus
  APIServer :: ComponentStatus
  Etcd :: ComponentStatus
  IsInCluster :: bool

text \<open>Calls made to the collaborators, in the order they are made.\<close>

datatype call =
    CallApiserverGet HostConfig
  | CallEtcdMemberList
  | CallEtcdGet HostConfig
  | CallBuildClientset
  | CallListNodes

text \<open>
  Modelled from the spec: the part of \<^verbatim>\<open>state.State\<close> the file touches, the store of
  configured hosts
  (\<^verbatim>\<open>s.Cluster.ControlPlane.Hosts\<close>, by address), the live hosts
  (\<^verbatim>\<open>s.LiveCluster.ControlPlane\<close>), whether \<^verbatim>\<open>s.DynamicClient\<close> is non-nil,
  and the record of collaborator calls.
\<close>

record State =
  Hosts :: "nat \<Rightarrow> HostConfig"
  ControlPlane :: "Host list"
  DynamicClient :: bool
  Calls :: "call list"

text \<open>The live hosts \<^verbatim>\<open>runProbes\<close> builds (lines 64-68): one per configured host.\<close>

definition newHost :: "nat \<Rightarrow> Host" where
  "newHost p =
     \<lparr>Config = p,
      ContainerRuntime = \<lparr>Version = None, Status = 0\<rparr>,
      Kubelet = \<lparr>Version = None, Status = 0\<rparr>,
      APIServer = \<lparr>Version = None, Status = 0\<rparr>,
      Etcd = \<lparr>Version = None, Status = 0\<rparr>,
      IsInCluster = False\<rparr>"

definition newControlPlane :: "nat \<Rightarrow> Host list" where
  "newControlPlane n = map newHost [0..<n]"

subsection \<open>Remote execution\<close>

text \<open>
  \<^verbatim>\<open>conn.Exec(cmd)\<close> returns stdout, stderr, the exit code and an error. A connection
  answers each command (\<open>respond\<close>) and records what it was asked (\<open>executed\<close>). No
  check of the file runs the same command twice, so the answer is a function of the
  command.
\<close>

record Connection =
  respond :: "string \<Rightarrow> string \<times> string \<times> int \<times> error option"
  executed :: "string list"

definition Exec ::
  "Connection \<Rightarrow> string \<Rightarrow> (string \<times> string \<times> int \<times> error option) \<times> Connection" where
  "Exec conn cmd = (respond conn cmd, conn\<lparr>executed := executed conn @ [cmd]\<rparr>)"

subsection \<open>systemdStatus (lines 338-373)\<close>

text \<open>Reading a Go map: a missing key reads as the empty string.\<close>

definition index :: "(string \<rightharpoonup> string) \<Rightarrow> string \<Rightarrow> string" where
  "index m k = (case m k of None \<Rightarrow> [] | Some v \<Rightarrow> v)"

text \<open>
  \<open>Unmarshal\<close> is \<^verbatim>\<open>yaml.Unmarshal\<close> into a \<^verbatim>\<open>map[string]string\<close>. The result is
  the returned pair and the connection after the call.
\<close>

definition systemdStatus ::
  "StatusFlags \<Rightarrow> (string \<Rightarrow> error + (string \<rightharpoonup> string)) \<Rightarrow> Connection \<Rightarrow> string
     \<Rightarrow> (uint64 \<times> error option) \<times> Connection" where
  "systemdStatus fl Unmarshal conn service =
     (case Exec conn (systemdShowStatusCMD service) of
        ((out, _, _, err), conn') \<Rightarrow>
          (case err of
             Some e \<Rightarrow> ((0, Some e), conn')
           | None \<Rightarrow>
               (case Unmarshal (ReplaceAll out ''='' '': '') of
                  Inl e \<Rightarrow> ((0, Some e), conn')
                | Inr m \<Rightarrow>
                    (let status = 0;
                         status =
                           (if index m ''LoadState'' = ''loaded''
                            then status OR ComponentInstalled fl else status);
                         status =
                           (if index m ''ActiveState'' = ''active''
                               \<or> index m ''ActiveState'' = ''activating''
                            then status OR SystemDStatusActive fl else status);
                         status =
                           (if index m ''SubState'' = ''running''
                              then status OR SystemDStatusRunning fl
                            else if index m ''SubState'' = ''auto-restart''
                              then status OR SystemDStatusRestarting fl
                            else if index m ''SubState'' = ''dead''
                              then status OR SystemdDStatusDead fl
                            else status OR SystemDStatusUnknown fl)
                     in ((status, None), conn')))))"

subsection \<open>detectDockerStatusVersion (lines 243-282)\<close>

text \<open>
  \<open>NewVersion\<close> is \<^verbatim>\<open>semver.NewVersion\<close>, \<open>hp\<close> the store of configured hosts the
  pointer \<^verbatim>\<open>host.Config\<close> points into. The result is the host as the call leaves it,
  the connection after the call, and the returned error.
\<close>

definition detectDockerStatusVersion ::
  "StatusFlags \<Rightarrow> (string \<Rightarrow> error + (string \<rightharpoonup> string)) \<Rightarrow> (string \<Rightarrow> error + semverVersion)
     \<Rightarrow> (nat \<Rightarrow> HostConfig) \<Rightarrow> Host \<Rightarrow> Connection \<Rightarrow> Host \<times> Connection \<times> error option" where
  "detectDockerStatusVersion fl Unmarshal NewVersion hp host conn =
     (case systemdStatus fl Unmarshal conn ''docker'' of
        ((st, err), conn) \<Rightarrow>
          (let host = host\<lparr>ContainerRuntime := (ContainerRuntime host)\<lparr>Status := st\<rparr>\<rparr> in
           if err \<noteq> None then (host, conn, err)
           else if Status (ContainerRuntime host) AND ComponentInstalled fl = 0
             then (host, conn, None)
           else
             (case
                (case OperatingSystem (hp (Config host)) of
                   OperatingSystemNameCentOS \<Rightarrow> Inr dockerVersionRPM
                 | OperatingSystemNameRHEL \<Rightarrow> Inr dockerVersionRPM
                 | OperatingSystemNameUbuntu \<Rightarrow> Inr dockerVersionDPKG
                 | OperatingSystemNameFlatcar \<Rightarrow>
                     Inl (host\<lparr>ContainerRuntime :=
                                 (ContainerRuntime host)\<lparr>Version := Some zeroVersion\<rparr>\<rparr>)
                 | OperatingSystemNameCoreOS \<Rightarrow>
                     Inl (host\<lparr>ContainerRuntime :=
                                 (ContainerRuntime host)\<lparr>Version := Some zeroVersion\<rparr>\<rparr>)
                 | OperatingSystemNameOther _ \<Rightarrow> Inl host)
              of
                Inl host \<Rightarrow> (host, conn, None)
              | Inr dockerVersionCmd \<Rightarrow>
                  (case Exec conn dockerVersionCmd of
                     ((out, _, _, err), conn) \<Rightarrow>
                       if err \<noteq> None then (host, conn, err)
                       else
                         (case NewVersion (TrimSpace out) of
                            Inl err \<Rightarrow> (host, conn, Some (Wrapf err ''version was: %q'' out))
                          | Inr ver \<Rightarrow>
                              (host\<lparr>ContainerRuntime :=
                                      (ContainerRuntime host)\<lparr>Version := Some ver\<rparr>\<rparr>,
                               conn, None))))))"

subsection \<open>detectKubeletStatusVersion (lines 284-321)\<close>

definition detectKubeletStatusVersion ::
  "StatusFlags \<Rightarrow> (string \<Rightarrow> error + (string \<rightharpoonup> string)) \<Rightarrow> (string \<Rightarrow> error + semverVersion)
     \<Rightarrow> (nat \<Rightarrow> HostConfig) \<Rightarrow> Host \<Rightarrow> Connection \<Rightarrow> Host \<times> Connection \<times> error option" where
  "detectKubeletStatusVersion fl Unmarshal NewVersion hp host conn =
     (case systemdStatus fl Unmarshal conn ''kubelet'' of
        ((st, err), conn) \<Rightarrow>
          (let host = host\<lparr>Kubelet := (Kubelet host)\<lparr>Status := st\<rparr>\<rparr> in
           if err \<noteq> None then (host, conn, err)
           else if Status (Kubelet host) AND ComponentInstalled fl = 0
             then (host, conn, None)
           else
             (case
                (case OperatingSystem (hp (Config host)) of
                   OperatingSystemNameCentOS \<Rightarrow> Some kubeletVersionRPM
                 | OperatingSystemNameRHEL \<Rightarrow> Some kubeletVersionRPM
                 | OperatingSystemNameUbuntu \<Rightarrow> Some kubeletVersionDPKG
                 | OperatingSystemNameFlatcar \<Rightarrow> Some kubeletVersionCLI
                 | OperatingSystemNameCoreOS \<Rightarrow> Some kubeletVersionCLI
                 | OperatingSystemNameOther _ \<Rightarrow> None)
              of
                None \<Rightarrow> (host, conn, None)
              | Some kubeletVersionCmd \<Rightarrow>
                  (case Exec conn kubeletVersionCmd of
                     ((out, _, _, err), conn) \<Rightarrow>
                       if err \<noteq> None then (host, conn, err)
                       else
                         (case NewVersion (TrimSpace out) of
                            Inl err \<Rightarrow> (host, conn, Some err)
                          | Inr ver \<Rightarrow>
                              (host\<lparr>Kubelet := (Kubelet host)\<lparr>Version := Some ver\<rparr>\<rparr>,
                               conn, None))))))"

subsection \<open>detectKubeletInitialized (lines 323-336)\<close>

definition detectKubeletInitialized ::
  "StatusFlags \<Rightarrow> Host \<Rightarrow> Connection \<Rightarrow> Host \<times> Connection \<times> error option" where
  "detectKubeletInitialized fl host conn =
     (case Exec conn kubeletInitializedCMD of
        ((_, _, exitcode, err), conn) \<Rightarrow>
          if err \<noteq> None \<and> exitcode \<le> 0 then (host, conn, err)
          else if exitcode = 0
            then (host\<lparr>Kubelet :=
                         (Kubelet host)\<lparr>Status := Status (Kubelet host) OR KubeletInitialized fl\<rparr>\<rparr>,
                  conn, None)
          else (host, conn, None))"

subsection \<open>The collaborators of investigateCluster\<close>

text \<open>
  Modelled from the spec: the reports of the two status collaborators, which the file
  uses and does not declare.
  \<^verbatim>\<open>apiserverstatus.Get\<close> returns a report and an error; the file reads the report's
  \<^verbatim>\<open>Health\<close> without a nil check, so the report is a value. \<^verbatim>\<open>etcdstatus.Get\<close>
  returns a report that may be nil (the file checks), with the fields \<^verbatim>\<open>Member\<close> and
  \<^verbatim>\<open>Health\<close> (here \<open>EtcdHealth\<close>, the name \<open>Health\<close> being taken).
\<close>

record apiserverReport =
  Health :: bool

record etcdReport =
  Member :: bool
  EtcdHealth :: bool

text \<open>
  What the imported packages answer. \<open>IsProvisioned\<close> is the method of the live cluster,
  which sees the live hosts and, through their pointers, the configured hosts.
  \<open>ListNodes\<close> is \<^verbatim>\<open>s.DynamicClient.List\<close> with the control-plane label selector: the
  names of the node objects, in the order of \<^verbatim>\<open>nodes.Items\<close>. \<open>'m\<close> is the type of
  the etcd member list.
\<close>

record 'm Collaborators =
  IsProvisioned :: "(nat \<Rightarrow> HostConfig) \<Rightarrow> Host list \<Rightarrow> bool"
  apiserverstatusGet :: "HostConfig \<Rightarrow> apiserverReport \<times> error option"
  etcdstatusMemberList :: "error + 'm"
  etcdstatusGet :: "HostConfig \<Rightarrow> 'm \<Rightarrow> etcdReport option \<times> error option"
  BuildKubernetesClientset :: "error option"
  ListNodes :: "error + string list"

text \<open>What the function prints of the node-set comparison (lines 222-228).\<close>

record Diagnostics =
  hostsToBeProvisioned :: "string set"
  nodesToBeRemoved :: "string set"

definition QuorumLostError :: error where
  "QuorumLostError = New ''leader not elected, quorum mostly like lost''"

subsection \<open>investigateCluster: leader election (lines 145-166)\<close>

text \<open>The body of the loop of lines 145-147, at index \<open>i\<close>.\<close>

definition clearLeader :: "nat \<Rightarrow> State \<Rightarrow> State" where
  "clearLeader i s =
     s\<lparr>Hosts := (Hosts s)
          (Config (ControlPlane s ! i) :=
             (Hosts s (Config (ControlPlane s ! i)))\<lparr>IsLeader := False\<rparr>)\<rparr>"

text \<open>
  The body of the loop of lines 150-160, at index \<open>i\<close>, on the state and the local
  \<^verbatim>\<open>leaderElected\<close>. The error of the health query is dropped, as the blank
  identifier of line 152 drops it.
\<close>

definition electLeader ::
  "StatusFlags \<Rightarrow> 'm Collaborators \<Rightarrow> nat \<Rightarrow> State \<times> bool \<Rightarrow> State \<times> bool" where
  "electLeader fl co i = (\<lambda>(s, leaderElected).
     (let cfg = Hosts s (Config (ControlPlane s ! i));
          apiserverStatus = fst (apiserverstatusGet co cfg);
          s = s\<lparr>Calls := Calls s @ [CallApiserverGet cfg]\<rparr>
      in if Health apiserverStatus then
           (let h = ControlPlane s ! i;
                s = s\<lparr>ControlPlane := (ControlPlane s)
                      [i := h\<lparr>APIServer :=
                                 (APIServer h)\<lparr>Status := Status (APIServer h) OR PodRunning fl\<rparr>\<rparr>]\<rparr>
            in if \<not> leaderElected
               then (s\<lparr>Hosts := (Hosts s)
                         (Config (ControlPlane s ! i) :=
                            (Hosts s (Config (ControlPlane s ! i)))\<lparr>IsLeader := True\<rparr>)\<rparr>,
                     True)
               else (s, leaderElected))
         else (s, leaderElected)))"

definition leaderElection :: "StatusFlags \<Rightarrow> 'm Collaborators \<Rightarrow> State \<Rightarrow> State \<times> bool" where
  "leaderElection fl co s =
     (let s = fold clearLeader [0..<length (ControlPlane s)] s
      in fold (electLeader fl co) [0..<length (ControlPlane s)] (s, False))"

subsection \<open>investigateCluster: etcd (lines 168-181)\<close>

definition etcdStep :: "StatusFlags \<Rightarrow> 'm Collaborators \<Rightarrow> 'm \<Rightarrow> nat \<Rightarrow> State \<Rightarrow> State" where
  "etcdStep fl co etcdMembers i s =
     (let cfg = Hosts s (Config (ControlPlane s ! i));
          etcdStatus = fst (etcdstatusGet co cfg etcdMembers);
          s = s\<lparr>Calls := Calls s @ [CallEtcdGet cfg]\<rparr>
      in case etcdStatus of
           None \<Rightarrow> s
         | Some r \<Rightarrow>
             if Member r \<and> EtcdHealth r then
               (let h = ControlPlane s ! i
                in s\<lparr>ControlPlane := (ControlPlane s)
                      [i := h\<lparr>Etcd := (Etcd h)\<lparr>Status := Status (Etcd h) OR PodRunning fl\<rparr>\<rparr>]\<rparr>)
             else s)"

definition etcdPhase ::
  "StatusFlags \<Rightarrow> 'm Collaborators \<Rightarrow> State \<Rightarrow> State \<times> error option" where
  "etcdPhase fl co s =
     (let s = s\<lparr>Calls := Calls s @ [CallEtcdMemberList]\<rparr>
      in case etcdstatusMemberList co of
           Inl err \<Rightarrow> (s, Some err)
         | Inr etcdMembers \<Rightarrow>
             (fold (etcdStep fl co etcdMembers) [0..<length (ControlPlane s)] s, None))"

subsection \<open>investigateCluster: the node set (lines 183-240)\<close>

text \<open>The body of the inner loop of lines 210-214, for one node name at index \<open>i\<close>.\<close>

definition markInCluster :: "string \<Rightarrow> nat \<Rightarrow> State \<Rightarrow> State" where
  "markInCluster name i s =
     (if name = Hostname (Hosts s (Config (ControlPlane s ! i)))
      then s\<lparr>ControlPlane := (ControlPlane s)[i := (ControlPlane s ! i)\<lparr>IsInCluster := True\<rparr>]\<rparr>
      else s)"

text \<open>The body of the loop of lines 207-216, for one node name.\<close>

definition nodeStep :: "string set \<Rightarrow> string \<Rightarrow> State \<times> string set \<Rightarrow> State \<times> string set" where
  "nodeStep knownHostsIdentities name = (\<lambda>(s, knownNodesIdentities).
     (if name \<in> knownHostsIdentities
      then fold (markInCluster name) [0..<length (ControlPlane s)] s
      else s,
      insert name knownNodesIdentities))"

definition nodeSetReconciliation ::
  "'m Collaborators \<Rightarrow> State \<Rightarrow> State \<times> Diagnostics option \<times> error option" where
  "nodeSetReconciliation co s =
     (case
        (if DynamicClient s then (s, None)
         else
           (let s = s\<lparr>Calls := Calls s @ [CallBuildClientset]\<rparr>
            in case BuildKubernetesClientset co of
                 Some err \<Rightarrow> (s, Some err)
               | None \<Rightarrow> (s\<lparr>DynamicClient := True\<rparr>, None)))
      of
        (s, Some err) \<Rightarrow> (s, None, Some err)
      | (s, None) \<Rightarrow>
          (let s = s\<lparr>Calls := Calls s @ [CallListNodes]\<rparr>
           in case ListNodes co of
                Inl err \<Rightarrow> (s, None, Some (Wrap err ''unable to list nodes''))
              | Inr nodes \<Rightarrow>
                  (let knownHostsIdentities =
                         fold (\<lambda>host ids. insert (Hostname (Hosts s (Config host))) ids)
                           (ControlPlane s) {};
                       r = fold (nodeStep knownHostsIdentities) nodes (s, {});
                       s = fst r;
                       knownNodesIdentities = snd r
                   in (s,
                       Some \<lparr>hostsToBeProvisioned = knownHostsIdentities - knownNodesIdentities,
                             nodesToBeRemoved = knownNodesIdentities - knownHostsIdentities\<rparr>,
                       None))))"

subsection \<open>investigateCluster (lines 138-241)\<close>

text \<open>
  The result is the state as the call leaves it, the two difference sets when the call
  reaches the lines that print them, and the returned error.
\<close>

definition investigateCluster ::
  "StatusFlags \<Rightarrow> 'm Collaborators \<Rightarrow> State \<Rightarrow> State \<times> Diagnostics option \<times> error option" where
  "investigateCluster fl co s =
     (if \<not> IsProvisioned co (Hosts s) (ControlPlane s)
      then (s, None, Some (New ''unable to investigate non-provisioned cluster''))
      else
        (case leaderElection fl co s of
           (s, leaderElected) \<Rightarrow>
             if \<not> leaderElected then (s, None, Some QuorumLostError)
             else
               (case etcdPhase fl co s of
                  (s, Some err) \<Rightarrow> (s, None, Some err)
                | (s, None) \<Rightarrow> nodeSetReconciliation co s)))"

section \<open>Concrete inputs\<close>

text \<open>One assignment of the flags: eight single bits.\<close>

definition exampleFlags :: StatusFlags where
  "exampleFlags =
     \<lparr>ComponentInstalled = 1, SystemDStatusActive = 2, SystemDStatusRunning = 4,
      SystemDStatusRestarting = 8, SystemdDStatusDead = 16, SystemDStatusUnknown = 32,
      KubeletInitialized = 64, PodRunning = 128\<rparr>"

text \<open>What \<^verbatim>\<open>systemctl show\<close> prints for a loaded, active, running unit.\<close>

definition runningUnit :: string where
  "runningUnit =
     ''LoadState=loaded'' @ [CHR 0x0A] @ ''ActiveState=active'' @ [CHR 0x0A]
       @ ''SubState=running'' @ [CHR 0x0A]"

text \<open>A decoder that knows this one text, after the separators are normalised.\<close>

definition exampleUnmarshal :: "string \<Rightarrow> error + (string \<rightharpoonup> string)" where
  "exampleUnmarshal text =
     (if text = ''LoadState: loaded'' @ [CHR 0x0A] @ ''ActiveState: active'' @ [CHR 0x0A]
                  @ ''SubState: running'' @ [CHR 0x0A]
      then Inr [''LoadState'' \<mapsto> ''loaded'', ''ActiveState'' \<mapsto> ''active'',
                ''SubState'' \<mapsto> ''running'']
      else Inl (Collaborator ''yaml: unmarshal errors''))"

text \<open>A version parser that knows one version and rejects every other text.\<close>

definition exampleNewVersion :: "string \<Rightarrow> error + semverVersion" where
  "exampleNewVersion v =
     (if v = ''1.18.2''
      then Inr \<lparr>major = 1, minor = 18, patch = 2, pre = [], metadata = [],
                original = ''1.18.2''\<rparr>
      else Inl (Collaborator ''Invalid Semantic Version''))"

text \<open>
  A connection that answers from a script; a command outside the script fails as a lost
  session does, with an error and the exit code -1.
\<close>

definition scriptedConn ::
  "(string \<times> string \<times> string \<times> int \<times> error option) list \<Rightarrow> Connection" where
  "scriptedConn script =
     \<lparr>respond = (\<lambda>cmd. case map_of script cmd of
                          Some r \<Rightarrow> r
                        | None \<Rightarrow> ([], [], - 1, Some (Collaborator ''ssh: session failed''))),
      executed = []\<rparr>"

text \<open>
  The store of configured hosts as \<^verbatim>\<open>runProbes\<close> sees it: address \<open>p\<close> is element
  \<open>p\<close> of the configured array.
\<close>

definition storeOf :: "HostConfig list \<Rightarrow> nat \<Rightarrow> HostConfig" where
  "storeOf cs p =
     (if p < length cs then cs ! p
      else \<lparr>Hostname = [], OperatingSystem = OperatingSystemNameOther [], IsLeader = False\<rparr>)"

definition hostNamed :: "string \<Rightarrow> OperatingSystemName \<Rightarrow> HostConfig" where
  "hostNamed name os = \<lparr>Hostname = name, OperatingSystem = os, IsLeader = False\<rparr>"

text \<open>
  Three configured hosts, one of the immutable family, one of a family the file does not
  name, one of the DPKG family; and a connection on which both units are loaded, active
  and running, the kubelet CLI reports a version and both package queries print
  something that is no version.
\<close>

definition exampleStore :: "nat \<Rightarrow> HostConfig" where
  "exampleStore =
     storeOf [hostNamed ''node1'' OperatingSystemNameFlatcar,
              hostNamed ''node2'' (OperatingSystemNameOther ''windows''),
              hostNamed ''node3'' OperatingSystemNameUbuntu]"

definition exampleConn :: Connection where
  "exampleConn =
     scriptedConn
       [(systemdShowStatusCMD ''docker'', runningUnit, [], 0, None),
        (systemdShowStatusCMD ''kubelet'', runningUnit, [], 0, None),
        (kubeletVersionCLI, ''1.18.2'' @ [CHR 0x0A], [], 0, None),
        (dockerVersionDPKG, ''not-a-version'', [], 0, None),
        (kubeletVersionDPKG, ''not-a-version'', [], 0, None)]"

text \<open>
  A state as \<^verbatim>\<open>runProbes\<close> hands it to \<^verbatim>\<open>investigateCluster\<close>: the configured
  hosts in the store, one fresh live host per configured host, no client yet.
\<close>

definition exampleState :: "HostConfig list \<Rightarrow> State" where
  "exampleState cs =
     \<lparr>Hosts = storeOf cs, ControlPlane = newControlPlane (length cs),
      DynamicClient = False, Calls = []\<rparr>"

text \<open>
  Collaborators: the API server is healthy on the hosts named in \<open>up\<close> and the query
  fails with an error on every other host; the etcd lookup finds the hosts the member
  list names and fails on every other host; the node listing returns \<open>nodes\<close>.
\<close>

definition exampleCollaborators ::
  "string list \<Rightarrow> error + string list \<Rightarrow> string list \<Rightarrow> string list Collaborators" where
  "exampleCollaborators up members nodes =
     \<lparr>IsProvisioned = (\<lambda>hp cp. cp \<noteq> []),
      apiserverstatusGet = (\<lambda>cfg.
        if Hostname cfg \<in> set up then (\<lparr>Health = True\<rparr>, None)
        else (\<lparr>Health = False\<rparr>, Some (Collaborator ''apiserver: connection refused''))),
      etcdstatusMemberList = members,
      etcdstatusGet = (\<lambda>cfg ms.
        if Hostname cfg \<in> set ms then (Some \<lparr>Member = True, EtcdHealth = True\<rparr>, None)
        else (None, Some (Collaborator ''etcd: member not found''))),
      BuildKubernetesClientset = None,
      ListNodes = Inr nodes\<rparr>"

text \<open>Three hosts A, B, C; A and C carry a stale leader flag.\<close>

definition hostsABC :: "HostConfig list" where
  "hostsABC =
     [(hostNamed ''A'' OperatingSystemNameUbuntu)\<lparr>IsLeader := True\<rparr>,
      hostNamed ''B'' OperatingSystemNameUbuntu,
      (hostNamed ''C'' OperatingSystemNameUbuntu)\<lparr>IsLeader := True\<rparr>]"


text \<open>Three configured hosts h1, h2, h3.\<close>

definition hosts123 :: "HostConfig list" where
  "hosts123 =
     [hostNamed ''h1'' OperatingSystemNameUbuntu, hostNamed ''h2'' OperatingSystemNameUbuntu,
      hostNamed ''h3'' OperatingSystemNameUbuntu]"

section \<open>Notions the statements about investigateCluster use\<close>

text \<open>
  The store after the loop of lines 145-147: the leader flag is false in every cell a
  live host points to, and every other cell is as it was.
\<close>

definition clearedStore :: "State \<Rightarrow> nat \<Rightarrow> HostConfig" where
  "clearedStore s p =
     (if p \<in> Config ` set (ControlPlane s) then (Hosts s p)\<lparr>IsLeader := False\<rparr> else Hosts s p)"

text \<open>
  A live host is healthy when the health query, asked about its configuration with the
  leader flag cleared, reports \<^verbatim>\<open>Health\<close>; the error of the query plays no part.
\<close>

definition healthy :: "'m Collaborators \<Rightarrow> State \<Rightarrow> Host \<Rightarrow> bool" where
  "healthy co s h = Health (fst (apiserverstatusGet co (clearedStore s (Config h))))"

text \<open>The two updates of a live host's bitmasks (lines 154 and 177).\<close>

definition markAPIServer :: "StatusFlags \<Rightarrow> Host \<Rightarrow> Host" where
  "markAPIServer fl h =
     h\<lparr>APIServer := (APIServer h)\<lparr>Status := Status (APIServer h) OR PodRunning fl\<rparr>\<rparr>"

definition markEtcd :: "StatusFlags \<Rightarrow> Host \<Rightarrow> Host" where
  "markEtcd fl h = h\<lparr>Etcd := (Etcd h)\<lparr>Status := Status (Etcd h) OR PodRunning fl\<rparr>\<rparr>"

text \<open>
  What the etcd query reports of a live host, given the member list and the store: a
  report that is present and says both \<^verbatim>\<open>Member\<close> and \<^verbatim>\<open>Health\<close>.
\<close>

definition etcdReported ::
  "'m Collaborators \<Rightarrow> 'm \<Rightarrow> (nat \<Rightarrow> HostConfig) \<Rightarrow> Host \<Rightarrow> bool" where
  "etcdReported co etcdMembers hp h =
     (case fst (etcdstatusGet co (hp (Config h)) etcdMembers) of
        None \<Rightarrow> False
      | Some r \<Rightarrow> Member r \<and> EtcdHealth r)"

text \<open>The hostnames of the live hosts, read through their pointers.\<close>

definition hostnames :: "State \<Rightarrow> string list" where
  "hostnames s = map (\<lambda>h. Hostname (Hosts s (Config h))) (ControlPlane s)"

section \<open>The status flags\<close>

lemma independent_nonzero:
  assumes "independent fl"
  shows "SystemDStatusRunning fl \<noteq> 0" "SystemDStatusRestarting fl \<noteq> 0"
    "SystemdDStatusDead fl \<noteq> 0" "SystemDStatusUnknown fl \<noteq> 0"
    "ComponentInstalled fl \<noteq> 0" "KubeletInitialized fl \<noteq> 0" "PodRunning fl \<noteq> 0"
  using assms by (simp_all add: independent_def)

lemma independent_disjoint:
  assumes "independent fl"
  shows "ComponentInstalled fl AND SystemDStatusRunning fl = 0"
    "ComponentInstalled fl AND SystemDStatusRestarting fl = 0"
    "ComponentInstalled fl AND SystemdDStatusDead fl = 0"
    "ComponentInstalled fl AND SystemDStatusUnknown fl = 0"
    "SystemDStatusActive fl AND SystemDStatusRunning fl = 0"
    "SystemDStatusActive fl AND SystemDStatusRestarting fl = 0"
    "SystemDStatusActive fl AND SystemdDStatusDead fl = 0"
    "SystemDStatusActive fl AND SystemDStatusUnknown fl = 0"
    "SystemDStatusRunning fl AND SystemDStatusRestarting fl = 0"
    "SystemDStatusRunning fl AND SystemdDStatusDead fl = 0"
    "SystemDStatusRunning fl AND SystemDStatusUnknown fl = 0"
    "SystemDStatusRestarting fl AND SystemdDStatusDead fl = 0"
    "SystemDStatusRestarting fl AND SystemDStatusUnknown fl = 0"
    "SystemdDStatusDead fl AND SystemDStatusUnknown fl = 0"
  using assms by (simp_all add: independent_def)

lemma independent_disjoint_sym:
  assumes "independent fl"
  shows "SystemDStatusRunning fl AND ComponentInstalled fl = 0"
    "SystemDStatusRestarting fl AND ComponentInstalled fl = 0"
    "SystemdDStatusDead fl AND ComponentInstalled fl = 0"
    "SystemDStatusUnknown fl AND ComponentInstalled fl = 0"
    "SystemDStatusRunning fl AND SystemDStatusActive fl = 0"
    "SystemDStatusRestarting fl AND SystemDStatusActive fl = 0"
    "SystemdDStatusDead fl AND SystemDStatusActive fl = 0"
    "SystemDStatusUnknown fl AND SystemDStatusActive fl = 0"
    "SystemDStatusRestarting fl AND SystemDStatusRunning fl = 0"
    "SystemdDStatusDead fl AND SystemDStatusRunning fl = 0"
    "SystemDStatusUnknown fl AND SystemDStatusRunning fl = 0"
    "SystemdDStatusDead fl AND SystemDStatusRestarting fl = 0"
    "SystemDStatusUnknown fl AND SystemDStatusRestarting fl = 0"
    "SystemDStatusUnknown fl AND SystemdDStatusDead fl = 0"
  using independent_disjoint[OF assms] by (simp_all add: and.commute)

lemma has_or_self: "flag \<noteq> 0 \<Longrightarrow> has (status OR flag) flag"
  by (simp add: has_def word_ao_absorbs)

lemma has_or_iff: "has (status OR flag) flag' \<longleftrightarrow> has status flag' \<or> has flag flag'"
  by (auto simp: has_def word_ao_dist or_eq_0_iff)

lemma independent_exampleFlags: "independent exampleFlags"
  by (simp add: independent_def exampleFlags_def)

lemma ReplaceAll_runningUnit:
  "ReplaceAll runningUnit ''='' '': '' =
     ''LoadState: loaded'' @ [CHR 0x0A] @ ''ActiveState: active'' @ [CHR 0x0A]
       @ ''SubState: running'' @ [CHR 0x0A]"
  by (simp add: runningUnit_def ReplaceAll.simps)

section \<open>The status decoder\<close>

lemma systemdStatus_executed:
  "systemdStatus fl Unmarshal conn service = (r, conn') \<Longrightarrow>
     conn' = conn\<lparr>executed := executed conn @ [systemdShowStatusCMD service]\<rparr>"
  by (auto simp: systemdStatus_def Exec_def Let_def split: prod.splits option.splits sum.splits)

lemma systemdStatus_running_unit:
  assumes "respond conn (systemdShowStatusCMD service) = (runningUnit, errout, code, None)"
  shows "systemdStatus exampleFlags exampleUnmarshal conn service =
           ((7, None), conn\<lparr>executed := executed conn @ [systemdShowStatusCMD service]\<rparr>)"
  using assms
  by (simp add: systemdStatus_def Exec_def ReplaceAll_runningUnit exampleUnmarshal_def
      index_def exampleFlags_def)

text \<open>
  C3. Whenever \<open>systemdStatus\<close> returns without an error, the text was decoded to a map
  \<open>m\<close>, and of the four flags Running, Restarting, Dead and Unknown exactly one is set in
  the returned bitmask: Running iff \<open>m["SubState"]\<close> is "running", Restarting iff it is
  "auto-restart", Dead iff it is "dead", and Unknown iff it is none of the three.
\<close>

theorem systemdStatus_exactly_one:
  assumes ind: "independent fl"
    and ok: "systemdStatus fl Unmarshal conn service = ((status, None), conn')"
  shows "\<exists>m. Unmarshal (ReplaceAll (fst (respond conn (systemdShowStatusCMD service))) ''='' '': '')
               = Inr m
     \<and> (has status (SystemDStatusRunning fl) \<longleftrightarrow> index m ''SubState'' = ''running'')
     \<and> (has status (SystemDStatusRestarting fl) \<longleftrightarrow> index m ''SubState'' = ''auto-restart'')
     \<and> (has status (SystemdDStatusDead fl) \<longleftrightarrow> index m ''SubState'' = ''dead'')
     \<and> (has status (SystemDStatusUnknown fl) \<longleftrightarrow>
           index m ''SubState'' \<noteq> ''running'' \<and> index m ''SubState'' \<noteq> ''auto-restart''
           \<and> index m ''SubState'' \<noteq> ''dead'')
     \<and> length (filter (has status)
          [SystemDStatusRunning fl, SystemDStatusRestarting fl, SystemdDStatusDead fl,
           SystemDStatusUnknown fl]) = 1"
proof -
  note d = independent_disjoint[OF ind] independent_disjoint_sym[OF ind]
    independent_nonzero[OF ind]
  obtain out a b err where r: "respond conn (systemdShowStatusCMD service) = (out, a, b, err)"
    by (metis prod_cases4)
  from ok r have e: "err = None"
    by (auto simp: systemdStatus_def Exec_def split: option.splits)
  from ok r e obtain m where m: "Unmarshal (ReplaceAll out ''='' '': '') = Inr m"
    by (auto simp: systemdStatus_def Exec_def split: sum.splits)
  from ok r e m have st: "status =
      (let status = 0;
           status = (if index m ''LoadState'' = ''loaded''
                     then status OR ComponentInstalled fl else status);
           status = (if index m ''ActiveState'' = ''active''
                        \<or> index m ''ActiveState'' = ''activating''
                     then status OR SystemDStatusActive fl else status)
       in (if index m ''SubState'' = ''running'' then status OR SystemDStatusRunning fl
           else if index m ''SubState'' = ''auto-restart''
             then status OR SystemDStatusRestarting fl
           else if index m ''SubState'' = ''dead'' then status OR SystemdDStatusDead fl
           else status OR SystemDStatusUnknown fl))"
    by (simp add: systemdStatus_def Exec_def Let_def)
  have "has status (SystemDStatusRunning fl) \<longleftrightarrow> index m ''SubState'' = ''running''"
    unfolding st has_def Let_def using d by (simp add: word_ao_dist)
  moreover have "has status (SystemDStatusRestarting fl)
      \<longleftrightarrow> index m ''SubState'' = ''auto-restart''"
    unfolding st has_def Let_def using d by (simp add: word_ao_dist)
  moreover have "has status (SystemdDStatusDead fl) \<longleftrightarrow> index m ''SubState'' = ''dead''"
    unfolding st has_def Let_def using d by (simp add: word_ao_dist)
  moreover have "has status (SystemDStatusUnknown fl) \<longleftrightarrow>
           index m ''SubState'' \<noteq> ''running'' \<and> index m ''SubState'' \<noteq> ''auto-restart''
           \<and> index m ''SubState'' \<noteq> ''dead''"
    unfolding st has_def Let_def using d by (simp add: word_ao_dist)
  ultimately show ?thesis using m r by auto
qed

theorem systemdStatus_exactly_one_witness:
  "independent exampleFlags
   \<and> systemdStatus exampleFlags exampleUnmarshal
       (scriptedConn [(systemdShowStatusCMD ''docker'', runningUnit, [], 0, None)]) ''docker''
     = ((7, None),
        (scriptedConn [(systemdShowStatusCMD ''docker'', runningUnit, [], 0, None)])
          \<lparr>executed := [systemdShowStatusCMD ''docker'']\<rparr>)
   \<and> has 7 (SystemDStatusRunning exampleFlags)
   \<and> length (filter (has 7)
        [SystemDStatusRunning exampleFlags, SystemDStatusRestarting exampleFlags,
         SystemdDStatusDead exampleFlags, SystemDStatusUnknown exampleFlags]) = 1"
proof -
  let ?c = "scriptedConn [(systemdShowStatusCMD ''docker'', runningUnit, [], 0, None)]"
  have r: "respond ?c (systemdShowStatusCMD ''docker'') = (runningUnit, [], 0, None)"
    by (simp add: scriptedConn_def)
  have e: "executed ?c = []"
    by (simp add: scriptedConn_def)
  have ok: "systemdStatus exampleFlags exampleUnmarshal ?c ''docker''
      = ((7, None), ?c\<lparr>executed := [systemdShowStatusCMD ''docker'']\<rparr>)"
    using systemdStatus_running_unit[OF r] e by simp
  from systemdStatus_exactly_one[OF independent_exampleFlags ok]
  obtain m where m:
    "exampleUnmarshal (ReplaceAll (fst (respond ?c (systemdShowStatusCMD ''docker''))) ''='' '': '')
       = Inr m"
    "has 7 (SystemDStatusRunning exampleFlags) \<longleftrightarrow> index m ''SubState'' = ''running''"
    "length (filter (has 7)
        [SystemDStatusRunning exampleFlags, SystemDStatusRestarting exampleFlags,
         SystemdDStatusDead exampleFlags, SystemDStatusUnknown exampleFlags]) = 1"
    by blast
  from m(1) have "index m ''SubState'' = ''running''"
    by (auto simp: r ReplaceAll_runningUnit exampleUnmarshal_def index_def)
  with m(2,3) independent_exampleFlags ok show ?thesis by simp
qed

section \<open>The kubelet-initialized check\<close>

lemma detectKubeletInitialized_cases:
  assumes "respond conn kubeletInitializedCMD = (out, errout, exitcode, err)"
  shows "detectKubeletInitialized fl host conn =
     (if err \<noteq> None \<and> exitcode \<le> 0
        then (host, conn\<lparr>executed := executed conn @ [kubeletInitializedCMD]\<rparr>, err)
      else if exitcode = 0
        then (host\<lparr>Kubelet :=
                     (Kubelet host)\<lparr>Status := Status (Kubelet host) OR KubeletInitialized fl\<rparr>\<rparr>,
              conn\<lparr>executed := executed conn @ [kubeletInitializedCMD]\<rparr>, None)
      else (host, conn\<lparr>executed := executed conn @ [kubeletInitializedCMD]\<rparr>, None))"
  using assms by (simp add: detectKubeletInitialized_def Exec_def)

text \<open>
  C4, as amended. The check reads the result of the marker-file command three ways. Exit
  code 0 with no error reported: the Initialized bit is set and the check succeeds. A
  positive exit code: the host is left as it was (the bit is not set by the check) and no
  error is returned, whether or not the command reported one. An error reported with a
  negative exit code: that error is returned and the host is left as it was.
\<close>

theorem detectKubeletInitialized_three_way:
  assumes "independent fl"
    and "respond conn kubeletInitializedCMD = (out, errout, exitcode, err)"
  shows "(exitcode = 0 \<and> err = None \<longrightarrow>
            snd (snd (detectKubeletInitialized fl host conn)) = None
            \<and> has (Status (Kubelet (fst (detectKubeletInitialized fl host conn))))
                  (KubeletInitialized fl))
       \<and> (0 < exitcode \<longrightarrow>
            snd (snd (detectKubeletInitialized fl host conn)) = None
            \<and> fst (detectKubeletInitialized fl host conn) = host)
       \<and> (err \<noteq> None \<and> exitcode < 0 \<longrightarrow>
            snd (snd (detectKubeletInitialized fl host conn)) = err
            \<and> fst (detectKubeletInitialized fl host conn) = host)"
  using independent_nonzero(6)[OF assms(1)]
  by (simp add: detectKubeletInitialized_cases[OF assms(2)] has_or_self)

theorem detectKubeletInitialized_three_way_witness:
  "independent exampleFlags
   \<and> respond (scriptedConn [(kubeletInitializedCMD, [], [], 0, None)]) kubeletInitializedCMD
       = ([], [], 0, None)
   \<and> snd (snd (detectKubeletInitialized exampleFlags (newHost 0)
                 (scriptedConn [(kubeletInitializedCMD, [], [], 0, None)]))) = None
   \<and> has (Status (Kubelet (fst (detectKubeletInitialized exampleFlags (newHost 0)
                 (scriptedConn [(kubeletInitializedCMD, [], [], 0, None)])))))
          (KubeletInitialized exampleFlags)
   \<and> respond (scriptedConn
                [(kubeletInitializedCMD, [], [], 1,
                  Some (Collaborator ''Process exited with status 1''))])
         kubeletInitializedCMD
       = ([], [], 1, Some (Collaborator ''Process exited with status 1''))
   \<and> detectKubeletInitialized exampleFlags (newHost 0)
         (scriptedConn
            [(kubeletInitializedCMD, [], [], 1,
              Some (Collaborator ''Process exited with status 1''))])
       = (newHost 0,
          (scriptedConn
            [(kubeletInitializedCMD, [], [], 1,
              Some (Collaborator ''Process exited with status 1''))])
            \<lparr>executed := [kubeletInitializedCMD]\<rparr>,
          None)
   \<and> respond (scriptedConn []) kubeletInitializedCMD
       = ([], [], - 1, Some (Collaborator ''ssh: session failed''))
   \<and> detectKubeletInitialized exampleFlags (newHost 0) (scriptedConn [])
       = (newHost 0, (scriptedConn [])\<lparr>executed := [kubeletInitializedCMD]\<rparr>,
          Some (Collaborator ''ssh: session failed''))"
proof -
  let ?c0 = "scriptedConn [(kubeletInitializedCMD, [], [], 0, None)]"
  let ?c1 = "scriptedConn [(kubeletInitializedCMD, [], [], 1,
                            Some (Collaborator ''Process exited with status 1''))]"
  let ?c2 = "scriptedConn []"
  have r0: "respond ?c0 kubeletInitializedCMD = ([], [], 0, None)"
    by (simp add: scriptedConn_def)
  have r1: "respond ?c1 kubeletInitializedCMD
      = ([], [], 1, Some (Collaborator ''Process exited with status 1''))"
    by (simp add: scriptedConn_def)
  have r2: "respond ?c2 kubeletInitializedCMD
      = ([], [], - 1, Some (Collaborator ''ssh: session failed''))"
    by (simp add: scriptedConn_def)
  have e: "executed ?c1 = []" "executed ?c2 = []"
    by (simp_all add: scriptedConn_def)
  note i = independent_exampleFlags
  have "snd (snd (detectKubeletInitialized exampleFlags (newHost 0) ?c0)) = None
      \<and> has (Status (Kubelet (fst (detectKubeletInitialized exampleFlags (newHost 0) ?c0))))
            (KubeletInitialized exampleFlags)"
    using detectKubeletInitialized_three_way[OF i r0, of "newHost 0"] by simp
  moreover have "snd (snd (detectKubeletInitialized exampleFlags (newHost 0) ?c1)) = None
      \<and> fst (detectKubeletInitialized exampleFlags (newHost 0) ?c1) = newHost 0"
    using detectKubeletInitialized_three_way[OF i r1, of "newHost 0"] by simp
  moreover have "snd (snd (detectKubeletInitialized exampleFlags (newHost 0) ?c2))
        = Some (Collaborator ''ssh: session failed'')
      \<and> fst (detectKubeletInitialized exampleFlags (newHost 0) ?c2) = newHost 0"
    using detectKubeletInitialized_three_way[OF i r2, of "newHost 0"] by simp
  moreover have "fst (snd (detectKubeletInitialized exampleFlags (newHost 0) ?c1))
        = ?c1\<lparr>executed := [kubeletInitializedCMD]\<rparr>"
    "fst (snd (detectKubeletInitialized exampleFlags (newHost 0) ?c2))
        = ?c2\<lparr>executed := [kubeletInitializedCMD]\<rparr>"
    using e by (simp_all add: detectKubeletInitialized_cases[OF r1]
        detectKubeletInitialized_cases[OF r2])
  ultimately show ?thesis using i r0 r1 r2 by (simp add: prod_eq_iff)
qed

text \<open>
  C4 as stated fails: a connection that reports an error together with the exit code 0.
  The check returns the error and does not set the Initialized bit.
\<close>

theorem detectKubeletInitialized_exit_zero_counterexample:
  "fst (snd (snd (respond
        (scriptedConn
           [(kubeletInitializedCMD, [], [], 0, Some (Collaborator ''ssh: connection lost''))])
        kubeletInitializedCMD))) = 0
   \<and> snd (snd (detectKubeletInitialized exampleFlags (newHost 0)
        (scriptedConn
           [(kubeletInitializedCMD, [], [], 0, Some (Collaborator ''ssh: connection lost''))])))
       = Some (Collaborator ''ssh: connection lost'')
   \<and> \<not> has (Status (Kubelet (fst (detectKubeletInitialized exampleFlags (newHost 0)
        (scriptedConn
           [(kubeletInitializedCMD, [], [], 0,
             Some (Collaborator ''ssh: connection lost''))])))))
        (KubeletInitialized exampleFlags)"
proof -
  let ?c = "scriptedConn
     [(kubeletInitializedCMD, [], [], 0, Some (Collaborator ''ssh: connection lost''))]"
  have r: "respond ?c kubeletInitializedCMD
      = ([], [], 0, Some (Collaborator ''ssh: connection lost''))"
    by (simp add: scriptedConn_def)
  show ?thesis
    by (simp add: detectKubeletInitialized_cases[OF r] r newHost_def has_def)
qed

text \<open>
  C10. The check returns an error exactly when the command reported an error together
  with an exit code that is at most 0, the exit code 0 included, and then it returns that
  error and leaves the host as it was. The check sets the Initialized bit only when the
  exit code is 0 and no error was reported: in every other case the host is unchanged, so
  the bit is set afterwards iff it was set before or the exit code is 0 with no error.
\<close>

theorem detectKubeletInitialized_error_branch:
  assumes "independent fl"
    and "respond conn kubeletInitializedCMD = (out, errout, exitcode, err)"
  shows "(err \<noteq> None \<and> exitcode \<le> 0 \<longrightarrow>
            detectKubeletInitialized fl host conn
              = (host, conn\<lparr>executed := executed conn @ [kubeletInitializedCMD]\<rparr>, err))
       \<and> (snd (snd (detectKubeletInitialized fl host conn)) \<noteq> None
            \<longleftrightarrow> err \<noteq> None \<and> exitcode \<le> 0)
       \<and> fst (detectKubeletInitialized fl host conn)
            = (if exitcode = 0 \<and> err = None
               then host\<lparr>Kubelet := (Kubelet host)
                           \<lparr>Status := Status (Kubelet host) OR KubeletInitialized fl\<rparr>\<rparr>
               else host)
       \<and> (has (Status (Kubelet (fst (detectKubeletInitialized fl host conn))))
              (KubeletInitialized fl)
            \<longleftrightarrow> has (Status (Kubelet host)) (KubeletInitialized fl)
                \<or> (exitcode = 0 \<and> err = None))"
  using independent_nonzero(6)[OF assms(1)]
  by (auto simp: detectKubeletInitialized_cases[OF assms(2)] has_or_self)

theorem detectKubeletInitialized_error_branch_witness:
  "independent exampleFlags
   \<and> respond (scriptedConn
        [(kubeletInitializedCMD, [], [], 0, Some (Collaborator ''ssh: connection lost''))])
        kubeletInitializedCMD
       = ([], [], 0, Some (Collaborator ''ssh: connection lost''))
   \<and> detectKubeletInitialized exampleFlags (newHost 0)
        (scriptedConn
          [(kubeletInitializedCMD, [], [], 0, Some (Collaborator ''ssh: connection lost''))])
       = (newHost 0,
          (scriptedConn
            [(kubeletInitializedCMD, [], [], 0, Some (Collaborator ''ssh: connection lost''))])
            \<lparr>executed := [kubeletInitializedCMD]\<rparr>,
          Some (Collaborator ''ssh: connection lost''))"
proof -
  let ?c = "scriptedConn
     [(kubeletInitializedCMD, [], [], 0, Some (Collaborator ''ssh: connection lost''))]"
  have r: "respond ?c kubeletInitializedCMD
      = ([], [], 0, Some (Collaborator ''ssh: connection lost''))"
    by (simp add: scriptedConn_def)
  have e: "executed ?c = []"
    by (simp add: scriptedConn_def)
  show ?thesis
    using detectKubeletInitialized_error_branch[OF independent_exampleFlags r, of "newHost 0"]
      independent_exampleFlags r e
    by simp
qed

section \<open>The container-runtime check and the kubelet check\<close>

lemma systemdShowStatusCMD_not_version:
  "systemdShowStatusCMD service \<notin>
     {dockerVersionDPKG, dockerVersionRPM, kubeletVersionDPKG, kubeletVersionRPM,
      kubeletVersionCLI}"
  by (simp add: systemdShowStatusCMD_def dockerVersionDPKG_def dockerVersionRPM_def
      kubeletVersionDPKG_def kubeletVersionRPM_def kubeletVersionCLI_def)

lemma detectDockerStatusVersion_installed:
  assumes "systemdStatus fl Unmarshal conn ''docker'' = ((st, None), conn1)"
    and "has st (ComponentInstalled fl)"
  shows "detectDockerStatusVersion fl Unmarshal NewVersion hp host conn =
     (let host1 = host\<lparr>ContainerRuntime := (ContainerRuntime host)\<lparr>Status := st\<rparr>\<rparr>;
          zero = host1\<lparr>ContainerRuntime := (ContainerRuntime host1)\<lparr>Version := Some zeroVersion\<rparr>\<rparr>;
          run = (\<lambda>cmd.
            case Exec conn1 cmd of
              ((out, _, _, err), conn2) \<Rightarrow>
                if err \<noteq> None then (host1, conn2, err)
                else
                  (case NewVersion (TrimSpace out) of
                     Inl err \<Rightarrow> (host1, conn2, Some (Wrapf err ''version was: %q'' out))
                   | Inr ver \<Rightarrow>
                       (host1\<lparr>ContainerRuntime :=
                                (ContainerRuntime host1)\<lparr>Version := Some ver\<rparr>\<rparr>,
                        conn2, None)))
      in case OperatingSystem (hp (Config host)) of
           OperatingSystemNameCentOS \<Rightarrow> run dockerVersionRPM
         | OperatingSystemNameRHEL \<Rightarrow> run dockerVersionRPM
         | OperatingSystemNameUbuntu \<Rightarrow> run dockerVersionDPKG
         | OperatingSystemNameFlatcar \<Rightarrow> (zero, conn1, None)
         | OperatingSystemNameCoreOS \<Rightarrow> (zero, conn1, None)
         | OperatingSystemNameOther x \<Rightarrow> (host1, conn1, None))"
  using assms
  by (simp add: detectDockerStatusVersion_def has_def Let_def
      split: OperatingSystemName.splits)

lemma detectKubeletStatusVersion_installed:
  assumes "systemdStatus fl Unmarshal conn ''kubelet'' = ((st, None), conn1)"
    and "has st (ComponentInstalled fl)"
  shows "detectKubeletStatusVersion fl Unmarshal NewVersion hp host conn =
     (let host1 = host\<lparr>Kubelet := (Kubelet host)\<lparr>Status := st\<rparr>\<rparr>;
          run = (\<lambda>cmd.
            case Exec conn1 cmd of
              ((out, _, _, err), conn2) \<Rightarrow>
                if err \<noteq> None then (host1, conn2, err)
                else
                  (case NewVersion (TrimSpace out) of
                     Inl err \<Rightarrow> (host1, conn2, Some err)
                   | Inr ver \<Rightarrow>
                       (host1\<lparr>Kubelet := (Kubelet host1)\<lparr>Version := Some ver\<rparr>\<rparr>,
                        conn2, None)))
      in case OperatingSystem (hp (Config host)) of
           OperatingSystemNameCentOS \<Rightarrow> run kubeletVersionRPM
         | OperatingSystemNameRHEL \<Rightarrow> run kubeletVersionRPM
         | OperatingSystemNameUbuntu \<Rightarrow> run kubeletVersionDPKG
         | OperatingSystemNameFlatcar \<Rightarrow> run kubeletVersionCLI
         | OperatingSystemNameCoreOS \<Rightarrow> run kubeletVersionCLI
         | OperatingSystemNameOther x \<Rightarrow> (host1, conn1, None))"
  using assms
  by (simp add: detectKubeletStatusVersion_def has_def Let_def
      split: OperatingSystemName.splits)

lemma detectDockerStatusVersion_other:
  assumes "systemdStatus fl Unmarshal conn ''docker'' = ((st, None), conn1)"
    and "OperatingSystem (hp (Config host)) = OperatingSystemNameOther x"
  shows "detectDockerStatusVersion fl Unmarshal NewVersion hp host conn =
     (host\<lparr>ContainerRuntime := (ContainerRuntime host)\<lparr>Status := st\<rparr>\<rparr>, conn1, None)"
  using assms by (simp add: detectDockerStatusVersion_def Let_def)

lemma detectKubeletStatusVersion_other:
  assumes "systemdStatus fl Unmarshal conn ''kubelet'' = ((st, None), conn1)"
    and "OperatingSystem (hp (Config host)) = OperatingSystemNameOther x"
  shows "detectKubeletStatusVersion fl Unmarshal NewVersion hp host conn =
     (host\<lparr>Kubelet := (Kubelet host)\<lparr>Status := st\<rparr>\<rparr>, conn1, None)"
  using assms by (simp add: detectKubeletStatusVersion_def Let_def)

lemma detectKubeletStatusVersion_immutable_executed:
  assumes s: "systemdStatus fl Unmarshal conn ''kubelet'' = ((st, None), conn1)"
    and i: "has st (ComponentInstalled fl)"
    and os: "OperatingSystem (hp (Config host))
          \<in> {OperatingSystemNameFlatcar, OperatingSystemNameCoreOS}"
  shows "executed (fst (snd (detectKubeletStatusVersion fl Unmarshal NewVersion hp host conn)))
           = executed conn1 @ [kubeletVersionCLI]"
proof -
  obtain out a b err where r: "respond conn1 kubeletVersionCLI = (out, a, b, err)"
    by (metis prod_cases4)
  show ?thesis
  proof (cases err)
    case (Some e)
    with r os show ?thesis
      by (auto simp: detectKubeletStatusVersion_installed[OF s i] Exec_def)
  next
    case None
    show ?thesis
    proof (cases "NewVersion (TrimSpace out)")
      case (Inl e)
      with r None os show ?thesis
        by (auto simp: detectKubeletStatusVersion_installed[OF s i] Exec_def)
    next
      case (Inr ver)
      with r None os show ?thesis
        by (auto simp: detectKubeletStatusVersion_installed[OF s i] Exec_def)
    qed
  qed
qed

text \<open>
  C6. Let the status query of the component succeed with the Installed bit set. On a host
  of the immutable family (Flatcar, CoreOS) the container-runtime check executes the
  status query and nothing else, stores the zero version and returns no error; the
  kubelet check executes the status query and then the kubelet CLI command. On a host of
  any family the file does not name, both checks execute the status query and nothing
  else, return no error and leave the version as it was. The status query is none of the
  version commands.
\<close>

theorem immutable_and_unknown_family_versions:
  "(systemdStatus fl Unmarshal conn ''docker'' = ((st, None), conn1)
      \<and> has st (ComponentInstalled fl)
      \<and> OperatingSystem (hp (Config host))
          \<in> {OperatingSystemNameFlatcar, OperatingSystemNameCoreOS}
    \<longrightarrow> detectDockerStatusVersion fl Unmarshal NewVersion hp host conn
          = (host\<lparr>ContainerRuntime := \<lparr>Version = Some zeroVersion, Status = st\<rparr>\<rparr>,
             conn\<lparr>executed := executed conn @ [systemdShowStatusCMD ''docker'']\<rparr>, None))
   \<and> (systemdStatus fl Unmarshal conn ''kubelet'' = ((st, None), conn1)
      \<and> has st (ComponentInstalled fl)
      \<and> OperatingSystem (hp (Config host))
          \<in> {OperatingSystemNameFlatcar, OperatingSystemNameCoreOS}
    \<longrightarrow> executed (fst (snd (detectKubeletStatusVersion fl Unmarshal NewVersion hp host conn)))
          = executed conn @ [systemdShowStatusCMD ''kubelet'', kubeletVersionCLI])
   \<and> (systemdStatus fl Unmarshal conn ''docker'' = ((st, None), conn1)
      \<and> OperatingSystem (hp (Config host)) = OperatingSystemNameOther x
    \<longrightarrow> detectDockerStatusVersion fl Unmarshal NewVersion hp host conn
          = (host\<lparr>ContainerRuntime := (ContainerRuntime host)\<lparr>Status := st\<rparr>\<rparr>,
             conn\<lparr>executed := executed conn @ [systemdShowStatusCMD ''docker'']\<rparr>, None))
   \<and> (systemdStatus fl Unmarshal conn ''kubelet'' = ((st, None), conn1)
      \<and> OperatingSystem (hp (Config host)) = OperatingSystemNameOther x
    \<longrightarrow> detectKubeletStatusVersion fl Unmarshal NewVersion hp host conn
          = (host\<lparr>Kubelet := (Kubelet host)\<lparr>Status := st\<rparr>\<rparr>,
             conn\<lparr>executed := executed conn @ [systemdShowStatusCMD ''kubelet'']\<rparr>, None))
   \<and> systemdShowStatusCMD service \<notin>
        {dockerVersionDPKG, dockerVersionRPM, kubeletVersionDPKG, kubeletVersionRPM,
         kubeletVersionCLI}"
proof (intro conjI impI)
  assume a: "systemdStatus fl Unmarshal conn ''docker'' = ((st, None), conn1)
      \<and> has st (ComponentInstalled fl)
      \<and> OperatingSystem (hp (Config host))
          \<in> {OperatingSystemNameFlatcar, OperatingSystemNameCoreOS}"
  then have c: "conn1 = conn\<lparr>executed := executed conn @ [systemdShowStatusCMD ''docker'']\<rparr>"
    using systemdStatus_executed by blast
  from a show "detectDockerStatusVersion fl Unmarshal NewVersion hp host conn
          = (host\<lparr>ContainerRuntime := \<lparr>Version = Some zeroVersion, Status = st\<rparr>\<rparr>,
             conn\<lparr>executed := executed conn @ [systemdShowStatusCMD ''docker'']\<rparr>, None)"
    using detectDockerStatusVersion_installed[of fl Unmarshal conn st conn1 NewVersion hp host]
    by (auto simp: c Let_def)
next
  assume a: "systemdStatus fl Unmarshal conn ''kubelet'' = ((st, None), conn1)
      \<and> has st (ComponentInstalled fl)
      \<and> OperatingSystem (hp (Config host))
          \<in> {OperatingSystemNameFlatcar, OperatingSystemNameCoreOS}"
  then have c: "conn1 = conn\<lparr>executed := executed conn @ [systemdShowStatusCMD ''kubelet'']\<rparr>"
    using systemdStatus_executed by blast
  from a show "executed (fst (snd (detectKubeletStatusVersion fl Unmarshal NewVersion hp host conn)))
          = executed conn @ [systemdShowStatusCMD ''kubelet'', kubeletVersionCLI]"
    using detectKubeletStatusVersion_immutable_executed[of fl Unmarshal conn st conn1 hp host
        NewVersion]
    by (simp add: c)
next
  assume a: "systemdStatus fl Unmarshal conn ''docker'' = ((st, None), conn1)
      \<and> OperatingSystem (hp (Config host)) = OperatingSystemNameOther x"
  then have c: "conn1 = conn\<lparr>executed := executed conn @ [systemdShowStatusCMD ''docker'']\<rparr>"
    using systemdStatus_executed by blast
  from a show "detectDockerStatusVersion fl Unmarshal NewVersion hp host conn
          = (host\<lparr>ContainerRuntime := (ContainerRuntime host)\<lparr>Status := st\<rparr>\<rparr>,
             conn\<lparr>executed := executed conn @ [systemdShowStatusCMD ''docker'']\<rparr>, None)"
    using detectDockerStatusVersion_other[of fl Unmarshal conn st conn1 hp host x NewVersion]
    by (simp add: c)
next
  assume a: "systemdStatus fl Unmarshal conn ''kubelet'' = ((st, None), conn1)
      \<and> OperatingSystem (hp (Config host)) = OperatingSystemNameOther x"
  then have c: "conn1 = conn\<lparr>executed := executed conn @ [systemdShowStatusCMD ''kubelet'']\<rparr>"
    using systemdStatus_executed by blast
  from a show "detectKubeletStatusVersion fl Unmarshal NewVersion hp host conn
          = (host\<lparr>Kubelet := (Kubelet host)\<lparr>Status := st\<rparr>\<rparr>,
             conn\<lparr>executed := executed conn @ [systemdShowStatusCMD ''kubelet'']\<rparr>, None)"
    using detectKubeletStatusVersion_other[of fl Unmarshal conn st conn1 hp host x NewVersion]
    by (simp add: c)
next
  show "systemdShowStatusCMD service \<notin>
        {dockerVersionDPKG, dockerVersionRPM, kubeletVersionDPKG, kubeletVersionRPM,
         kubeletVersionCLI}"
    by (rule systemdShowStatusCMD_not_version)
qed

lemma exampleConn_respond:
  "respond exampleConn (systemdShowStatusCMD ''docker'') = (runningUnit, [], 0, None)"
  "respond exampleConn (systemdShowStatusCMD ''kubelet'') = (runningUnit, [], 0, None)"
  "respond exampleConn kubeletVersionCLI = (''1.18.2'' @ [CHR 0x0A], [], 0, None)"
  "respond exampleConn dockerVersionDPKG = (''not-a-version'', [], 0, None)"
  "respond exampleConn kubeletVersionDPKG = (''not-a-version'', [], 0, None)"
  "executed exampleConn = []"
  by (simp_all add: exampleConn_def scriptedConn_def systemdShowStatusCMD_def
      kubeletVersionCLI_def dockerVersionDPKG_def kubeletVersionDPKG_def)

lemma exampleStore_os:
  "OperatingSystem (exampleStore (Config (newHost 0))) = OperatingSystemNameFlatcar"
  "OperatingSystem (exampleStore (Config (newHost 1))) = OperatingSystemNameOther ''windows''"
  "OperatingSystem (exampleStore (Config (newHost 2))) = OperatingSystemNameUbuntu"
  by (simp_all add: exampleStore_def storeOf_def hostNamed_def newHost_def)

lemma exampleConn_status:
  "systemdStatus exampleFlags exampleUnmarshal exampleConn ''docker''
     = ((7, None), exampleConn\<lparr>executed := [systemdShowStatusCMD ''docker'']\<rparr>)"
  "systemdStatus exampleFlags exampleUnmarshal exampleConn ''kubelet''
     = ((7, None), exampleConn\<lparr>executed := [systemdShowStatusCMD ''kubelet'']\<rparr>)"
  using systemdStatus_running_unit[OF exampleConn_respond(1)]
    systemdStatus_running_unit[OF exampleConn_respond(2)]
  by (simp_all add: exampleConn_respond(6))

lemma has_7_installed: "has 7 (ComponentInstalled exampleFlags)"
  by (simp add: has_def exampleFlags_def)

theorem immutable_and_unknown_family_versions_witness:
  "systemdStatus exampleFlags exampleUnmarshal exampleConn ''docker''
     = ((7, None), exampleConn\<lparr>executed := [systemdShowStatusCMD ''docker'']\<rparr>)
   \<and> systemdStatus exampleFlags exampleUnmarshal exampleConn ''kubelet''
     = ((7, None), exampleConn\<lparr>executed := [systemdShowStatusCMD ''kubelet'']\<rparr>)
   \<and> has 7 (ComponentInstalled exampleFlags)
   \<and> OperatingSystem (exampleStore (Config (newHost 0))) = OperatingSystemNameFlatcar
   \<and> detectDockerStatusVersion exampleFlags exampleUnmarshal exampleNewVersion exampleStore
        (newHost 0) exampleConn
       = ((newHost 0)\<lparr>ContainerRuntime := \<lparr>Version = Some zeroVersion, Status = 7\<rparr>\<rparr>,
          exampleConn\<lparr>executed := [systemdShowStatusCMD ''docker'']\<rparr>, None)
   \<and> executed (fst (snd (detectKubeletStatusVersion exampleFlags exampleUnmarshal
        exampleNewVersion exampleStore (newHost 0) exampleConn)))
       = [systemdShowStatusCMD ''kubelet'', kubeletVersionCLI]
   \<and> OperatingSystem (exampleStore (Config (newHost 1))) = OperatingSystemNameOther ''windows''
   \<and> detectDockerStatusVersion exampleFlags exampleUnmarshal exampleNewVersion exampleStore
        (newHost 1) exampleConn
       = ((newHost 1)\<lparr>ContainerRuntime := \<lparr>Version = None, Status = 7\<rparr>\<rparr>,
          exampleConn\<lparr>executed := [systemdShowStatusCMD ''docker'']\<rparr>, None)
   \<and> detectKubeletStatusVersion exampleFlags exampleUnmarshal exampleNewVersion exampleStore
        (newHost 1) exampleConn
       = ((newHost 1)\<lparr>Kubelet := \<lparr>Version = None, Status = 7\<rparr>\<rparr>,
          exampleConn\<lparr>executed := [systemdShowStatusCMD ''kubelet'']\<rparr>, None)"
proof -
  note d = exampleConn_status(1) and k = exampleConn_status(2)
  note e = exampleConn_respond(6)
  have "detectDockerStatusVersion exampleFlags exampleUnmarshal exampleNewVersion exampleStore
        (newHost 0) exampleConn
       = ((newHost 0)\<lparr>ContainerRuntime := \<lparr>Version = Some zeroVersion, Status = 7\<rparr>\<rparr>,
          exampleConn\<lparr>executed := [systemdShowStatusCMD ''docker'']\<rparr>, None)"
    using immutable_and_unknown_family_versions[of exampleFlags exampleUnmarshal exampleConn 7
        "exampleConn\<lparr>executed := [systemdShowStatusCMD ''docker'']\<rparr>" exampleStore
        "newHost 0" exampleNewVersion]
      d has_7_installed exampleStore_os(1) e
    by simp
  moreover have "executed (fst (snd (detectKubeletStatusVersion exampleFlags exampleUnmarshal
        exampleNewVersion exampleStore (newHost 0) exampleConn)))
       = [systemdShowStatusCMD ''kubelet'', kubeletVersionCLI]"
    using immutable_and_unknown_family_versions[of exampleFlags exampleUnmarshal exampleConn 7
        "exampleConn\<lparr>executed := [systemdShowStatusCMD ''kubelet'']\<rparr>" exampleStore
        "newHost 0" exampleNewVersion]
      k has_7_installed exampleStore_os(1) e
    by simp
  moreover have "detectDockerStatusVersion exampleFlags exampleUnmarshal exampleNewVersion
        exampleStore (newHost 1) exampleConn
       = ((newHost 1)\<lparr>ContainerRuntime := \<lparr>Version = None, Status = 7\<rparr>\<rparr>,
          exampleConn\<lparr>executed := [systemdShowStatusCMD ''docker'']\<rparr>, None)"
    using immutable_and_unknown_family_versions[of exampleFlags exampleUnmarshal exampleConn 7
        "exampleConn\<lparr>executed := [systemdShowStatusCMD ''docker'']\<rparr>" exampleStore
        "newHost 1" exampleNewVersion "''windows''"]
      d exampleStore_os(2) e
    by (simp add: newHost_def)
  moreover have "detectKubeletStatusVersion exampleFlags exampleUnmarshal exampleNewVersion
        exampleStore (newHost 1) exampleConn
       = ((newHost 1)\<lparr>Kubelet := \<lparr>Version = None, Status = 7\<rparr>\<rparr>,
          exampleConn\<lparr>executed := [systemdShowStatusCMD ''kubelet'']\<rparr>, None)"
    using immutable_and_unknown_family_versions[of exampleFlags exampleUnmarshal exampleConn 7
        "exampleConn\<lparr>executed := [systemdShowStatusCMD ''kubelet'']\<rparr>" exampleStore
        "newHost 1" exampleNewVersion "''windows''"]
      k exampleStore_os(2) e
    by (simp add: newHost_def)
  ultimately show ?thesis
    using d k has_7_installed exampleStore_os(1,2) by simp
qed

text \<open>
  What both checks do once a version command has run without an error: the output is
  trimmed and parsed; the version is stored when it parses. When it does not parse, the
  container-runtime check wraps the parser's error with the raw output, and the kubelet
  check returns the parser's error as it is.
\<close>

lemma detectDockerStatusVersion_parse:
  assumes s: "systemdStatus fl Unmarshal conn ''docker'' = ((st, None), conn1)"
    and i: "has st (ComponentInstalled fl)"
    and os: "OperatingSystem (hp (Config host))
          \<in> {OperatingSystemNameCentOS, OperatingSystemNameRHEL, OperatingSystemNameUbuntu}"
    and cmd: "cmd = (if OperatingSystem (hp (Config host)) = OperatingSystemNameUbuntu
                     then dockerVersionDPKG else dockerVersionRPM)"
    and r: "respond conn1 cmd = (out, errout, code, None)"
  shows "detectDockerStatusVersion fl Unmarshal NewVersion hp host conn =
     (let host1 = host\<lparr>ContainerRuntime := (ContainerRuntime host)\<lparr>Status := st\<rparr>\<rparr>;
          conn2 = conn1\<lparr>executed := executed conn1 @ [cmd]\<rparr>
      in case NewVersion (TrimSpace out) of
           Inl err \<Rightarrow> (host1, conn2, Some (Wrapf err ''version was: %q'' out))
         | Inr ver \<Rightarrow>
             (host1\<lparr>ContainerRuntime := (ContainerRuntime host1)\<lparr>Version := Some ver\<rparr>\<rparr>,
              conn2, None))"
  using os cmd r
  by (auto simp: detectDockerStatusVersion_installed[OF s i] Exec_def Let_def
      split: sum.splits)

lemma detectKubeletStatusVersion_parse:
  assumes s: "systemdStatus fl Unmarshal conn ''kubelet'' = ((st, None), conn1)"
    and i: "has st (ComponentInstalled fl)"
    and os: "OperatingSystem (hp (Config host))
          \<in> {OperatingSystemNameCentOS, OperatingSystemNameRHEL, OperatingSystemNameUbuntu,
              OperatingSystemNameFlatcar, OperatingSystemNameCoreOS}"
    and cmd: "cmd = (case OperatingSystem (hp (Config host)) of
                       OperatingSystemNameUbuntu \<Rightarrow> kubeletVersionDPKG
                     | OperatingSystemNameFlatcar \<Rightarrow> kubeletVersionCLI
                     | OperatingSystemNameCoreOS \<Rightarrow> kubeletVersionCLI
                     | _ \<Rightarrow> kubeletVersionRPM)"
    and r: "respond conn1 cmd = (out, errout, code, None)"
  shows "detectKubeletStatusVersion fl Unmarshal NewVersion hp host conn =
     (let host1 = host\<lparr>Kubelet := (Kubelet host)\<lparr>Status := st\<rparr>\<rparr>;
          conn2 = conn1\<lparr>executed := executed conn1 @ [cmd]\<rparr>
      in case NewVersion (TrimSpace out) of
           Inl err \<Rightarrow> (host1, conn2, Some err)
         | Inr ver \<Rightarrow>
             (host1\<lparr>Kubelet := (Kubelet host1)\<lparr>Version := Some ver\<rparr>\<rparr>, conn2, None))"
  using os cmd r
  by (auto simp: detectKubeletStatusVersion_installed[OF s i] Exec_def Let_def
      split: sum.splits)

lemma TrimSpace_examples:
  "TrimSpace ''not-a-version'' = ''not-a-version''"
  "TrimSpace (''1.18.2'' @ [CHR 0x0A]) = ''1.18.2''"
  "TrimSpace (''1.18.2'' @ [CHR 0xC2, CHR 0xA0, CHR 0x0A]) = ''1.18.2''"
  "TrimSpace ([CHR 0x20, CHR 0xE2, CHR 0x80, CHR 0x8A] @ ''v1 x'' @ [CHR 0xE3, CHR 0x80, CHR 0x80])
     = ''v1 x''"
  by (simp_all add: TrimSpace_def asciiSpace_def space2_def space3_def)

text \<open>
  C7, at the failing input: a DPKG-family host with both units installed whose package
  queries print "not-a-version", and a parser that rejects it with its fixed error. The
  container-runtime check returns that error wrapped with the raw output. The kubelet
  check returns the bare error, which does not carry the raw output.
\<close>

theorem kubelet_version_error_without_raw_output:
  "snd (snd (detectDockerStatusVersion exampleFlags exampleUnmarshal exampleNewVersion
        exampleStore (newHost 2) exampleConn))
     = Some (Wrapf (Collaborator ''Invalid Semantic Version'') ''version was: %q''
               ''not-a-version'')
   \<and> ''not-a-version''
       \<in> carried (Wrapf (Collaborator ''Invalid Semantic Version'') ''version was: %q''
                    ''not-a-version'')
   \<and> snd (snd (detectKubeletStatusVersion exampleFlags exampleUnmarshal exampleNewVersion
        exampleStore (newHost 2) exampleConn))
     = Some (Collaborator ''Invalid Semantic Version'')
   \<and> ''not-a-version'' \<notin> carried (Collaborator ''Invalid Semantic Version'')"
proof -
  have rd: "respond (exampleConn\<lparr>executed := [systemdShowStatusCMD ''docker'']\<rparr>)
      dockerVersionDPKG = (''not-a-version'', [], 0, None)"
    using exampleConn_respond(4) by simp
  have rk: "respond (exampleConn\<lparr>executed := [systemdShowStatusCMD ''kubelet'']\<rparr>)
      kubeletVersionDPKG = (''not-a-version'', [], 0, None)"
    using exampleConn_respond(5) by simp
  have "snd (snd (detectDockerStatusVersion exampleFlags exampleUnmarshal exampleNewVersion
        exampleStore (newHost 2) exampleConn))
     = Some (Wrapf (Collaborator ''Invalid Semantic Version'') ''version was: %q''
               ''not-a-version'')"
    using detectDockerStatusVersion_parse[OF exampleConn_status(1) has_7_installed _ _ rd,
        of exampleStore "newHost 2" exampleNewVersion]
    by (simp add: exampleStore_os(3) TrimSpace_examples exampleNewVersion_def Let_def)
  moreover have "snd (snd (detectKubeletStatusVersion exampleFlags exampleUnmarshal
        exampleNewVersion exampleStore (newHost 2) exampleConn))
     = Some (Collaborator ''Invalid Semantic Version'')"
    using detectKubeletStatusVersion_parse[OF exampleConn_status(2) has_7_installed _ _ rk,
        of exampleStore "newHost 2" exampleNewVersion]
    by (simp add: exampleStore_os(3) TrimSpace_examples exampleNewVersion_def Let_def)
  ultimately show ?thesis by simp
qed

section \<open>Loops over the live hosts\<close>

lemma nth_map_take_drop: "k < length xs \<Longrightarrow> (map g (take k xs) @ drop k xs) ! k = xs ! k"
  by (simp add: nth_append)

lemma update_map_take_drop:
  "k < length xs \<Longrightarrow>
     (map g (take k xs) @ drop k xs)[k := g (xs ! k)]
       = map g (take (Suc k) xs) @ drop (Suc k) xs"
  by (simp add: list_update_append take_Suc_conv_app_nth upd_conv_take_nth_drop)

lemma keep_map_take_drop:
  "k < length xs \<Longrightarrow> g (xs ! k) = xs ! k \<Longrightarrow>
     map g (take k xs) @ drop k xs = map g (take (Suc k) xs) @ drop (Suc k) xs"
  by (simp add: take_Suc_conv_app_nth Cons_nth_drop_Suc)

lemma map_nth_upt: "map (\<lambda>j. f (xs ! j)) [0..<length xs] = map f xs"
proof -
  have "map f (map ((!) xs) [0..<length xs]) = map f xs"
    by (simp only: map_nth)
  then show ?thesis by (simp only: map_map comp_def)
qed

lemma clearLeader_fold:
  "fold clearLeader js s =
     s\<lparr>Hosts := (\<lambda>p. if p \<in> (\<lambda>i. Config (ControlPlane s ! i)) ` set js
                       then (Hosts s p)\<lparr>IsLeader := False\<rparr> else Hosts s p)\<rparr>"
proof (induction js arbitrary: s)
  case Nil
  then show ?case by simp
next
  case (Cons j js)
  show ?case
    by (simp add: Cons.IH) (auto simp: clearLeader_def fun_eq_iff)
qed

lemma Config_image_indices:
  "(\<lambda>i. Config (xs ! i)) ` set [0..<length xs] = Config ` set xs"
proof -
  have "Config ` set xs = Config ` set (map ((!) xs) [0..<length xs])"
    by (simp only: map_nth)
  then show ?thesis
    by (simp only: set_map image_image)
qed

lemma clearLeader_loop:
  "fold clearLeader [0..<length (ControlPlane s)] s = s\<lparr>Hosts := clearedStore s\<rparr>"
  by (simp only: clearLeader_fold Config_image_indices) (simp add: clearedStore_def[abs_def])

lemma clearedStore_live:
  "h \<in> set (ControlPlane s) \<Longrightarrow> clearedStore s (Config h) = (Hosts s (Config h))\<lparr>IsLeader := False\<rparr>"
  by (simp add: clearedStore_def)

lemma markAPIServer_frame [simp]:
  "Config (markAPIServer fl h) = Config h"
  "IsInCluster (markAPIServer fl h) = IsInCluster h"
  "Etcd (markAPIServer fl h) = Etcd h"
  "Kubelet (markAPIServer fl h) = Kubelet h"
  "ContainerRuntime (markAPIServer fl h) = ContainerRuntime h"
  by (simp_all add: markAPIServer_def)

lemma markEtcd_frame [simp]:
  "Config (markEtcd fl h) = Config h"
  "IsInCluster (markEtcd fl h) = IsInCluster h"
  "APIServer (markEtcd fl h) = APIServer h"
  "Kubelet (markEtcd fl h) = Kubelet h"
  "ContainerRuntime (markEtcd fl h) = ContainerRuntime h"
  by (simp_all add: markEtcd_def)

text \<open>
  The election loop after \<open>k\<close> rounds, where \<open>f\<close> is the index of the first healthy host
  (\<open>f\<close> is the number of hosts when none is healthy).
\<close>

lemma electLeader_rounds:
  fixes s :: State and co :: "'m Collaborators"
  defines "cp \<equiv> ControlPlane s"
  assumes f: "f \<le> length cp" "\<forall>j<f. \<not> healthy co s (cp ! j)"
    "f < length cp \<longrightarrow> healthy co s (cp ! f) \<and> distinct (map Config cp)"
  shows "k \<le> length cp \<Longrightarrow>
    fold (electLeader fl co) [0..<k] (s\<lparr>Hosts := clearedStore s\<rparr>, False) =
      (s\<lparr>Hosts := (if f < k
                    then (clearedStore s)
                           (Config (cp ! f) := (clearedStore s (Config (cp ! f)))\<lparr>IsLeader := True\<rparr>)
                    else clearedStore s),
         ControlPlane :=
           map (\<lambda>h. if healthy co s h then markAPIServer fl h else h) (take k cp) @ drop k cp,
         Calls := Calls s
           @ map (\<lambda>j. CallApiserverGet (clearedStore s (Config (cp ! j)))) [0..<k]\<rparr>,
       f < k)"
proof (induction k)
  case 0
  then show ?case by (simp add: cp_def)
next
  case (Suc k)
  let ?g = "\<lambda>h. if healthy co s h then markAPIServer fl h else h"
  let ?L = "(clearedStore s)
              (Config (cp ! f) := (clearedStore s (Config (cp ! f)))\<lparr>IsLeader := True\<rparr>)"
  from Suc.prems have k: "k < length cp" by simp
  have nth: "(map ?g (take k cp) @ drop k cp) ! k = cp ! k"
    using k by (rule nth_map_take_drop)
  have neq: "Config (cp ! k) \<noteq> Config (cp ! f)" if "f < k"
  proof -
    from that k f(3) have d: "distinct (map Config cp)" and fl: "f < length cp" by auto
    from that have "f \<noteq> k" by simp
    with d fl k show ?thesis
      by (metis length_map nth_eq_iff_index_eq nth_map)
  qed
  have IH: "fold (electLeader fl co) [0..<k] (s\<lparr>Hosts := clearedStore s\<rparr>, False) =
      (s\<lparr>Hosts := (if f < k then ?L else clearedStore s),
         ControlPlane := map ?g (take k cp) @ drop k cp,
         Calls := Calls s
           @ map (\<lambda>j. CallApiserverGet (clearedStore s (Config (cp ! j)))) [0..<k]\<rparr>,
       f < k)"
    using Suc.IH k by simp
  have step: "fold (electLeader fl co) [0..<Suc k] (s\<lparr>Hosts := clearedStore s\<rparr>, False) =
      electLeader fl co k
        (s\<lparr>Hosts := (if f < k then ?L else clearedStore s),
           ControlPlane := map ?g (take k cp) @ drop k cp,
           Calls := Calls s
             @ map (\<lambda>j. CallApiserverGet (clearedStore s (Config (cp ! j)))) [0..<k]\<rparr>,
         f < k)"
    by (simp add: IH)
  show ?case
  proof (cases "healthy co s (cp ! k)")
    case True
    then have fk: "f \<le> k" using f(2) by (meson not_le)
    have h: "Health (fst (apiserverstatusGet co (clearedStore s (Config (cp ! k)))))"
      using True by (simp add: healthy_def)
    have upd: "(map ?g (take k cp) @ drop k cp)[k := markAPIServer fl (cp ! k)]
        = map ?g (take (Suc k) cp) @ drop (Suc k) cp"
      using update_map_take_drop[OF k, of ?g] True by simp
    have nth': "(map ?g (take (Suc k) cp) @ drop (Suc k) cp) ! k = markAPIServer fl (cp ! k)"
      using k True by (simp add: nth_append)
    show ?thesis
    proof (cases "f < k")
      case True
      then show ?thesis
        using h upd neq
        unfolding step
        by (simp add: electLeader_def Let_def nth markAPIServer_def[symmetric] fun_upd_def)
    next
      case False
      with fk have e: "f = k" by simp
      show ?thesis
        using h upd k
        unfolding step
        by (simp add: electLeader_def Let_def nth nth' markAPIServer_def[symmetric] e fun_upd_def)
    qed
  next
    case False
    then have ne: "f \<noteq> k" using f(3) k by auto
    have h: "\<not> Health (fst (apiserverstatusGet co (clearedStore s (Config (cp ! k)))))"
      using False by (simp add: healthy_def)
    have keep: "map ?g (take k cp) @ drop k cp = map ?g (take (Suc k) cp) @ drop (Suc k) cp"
      using keep_map_take_drop[OF k, of ?g] False by simp
    have lt: "(f < Suc k) = (f < k)" using ne by auto
    show ?thesis
    proof (cases "f < k")
      case True
      then show ?thesis
        using h neq unfolding step
        by (simp add: electLeader_def Let_def nth lt keep[symmetric] fun_upd_def)
    next
      case False
      then show ?thesis
        using h unfolding step
        by (simp add: electLeader_def Let_def nth lt keep[symmetric] fun_upd_def)
    qed
  qed
qed

lemma etcdStep_rounds:
  fixes s :: State and co :: "'m Collaborators"
  defines "cp \<equiv> ControlPlane s"
  shows "k \<le> length cp \<Longrightarrow>
    fold (etcdStep fl co etcdMembers) [0..<k] s =
      s\<lparr>ControlPlane :=
           map (\<lambda>h. if etcdReported co etcdMembers (Hosts s) h then markEtcd fl h else h)
             (take k cp) @ drop k cp,
         Calls := Calls s @ map (\<lambda>j. CallEtcdGet (Hosts s (Config (cp ! j)))) [0..<k]\<rparr>"
proof (induction k)
  case 0
  then show ?case by (simp add: cp_def)
next
  case (Suc k)
  let ?g = "\<lambda>h. if etcdReported co etcdMembers (Hosts s) h then markEtcd fl h else h"
  from Suc.prems have k: "k < length cp" by simp
  have nth: "(map ?g (take k cp) @ drop k cp) ! k = cp ! k"
    using k by (rule nth_map_take_drop)
  have step: "fold (etcdStep fl co etcdMembers) [0..<Suc k] s =
      etcdStep fl co etcdMembers k
        (s\<lparr>ControlPlane := map ?g (take k cp) @ drop k cp,
           Calls := Calls s @ map (\<lambda>j. CallEtcdGet (Hosts s (Config (cp ! j)))) [0..<k]\<rparr>)"
    using Suc.IH k by simp
  show ?case
  proof (cases "etcdReported co etcdMembers (Hosts s) (cp ! k)")
    case True
    then obtain r where r: "fst (etcdstatusGet co (Hosts s (Config (cp ! k))) etcdMembers) = Some r"
      "Member r" "EtcdHealth r"
      by (auto simp: etcdReported_def split: option.splits)
    have upd: "(map ?g (take k cp) @ drop k cp)[k := markEtcd fl (cp ! k)]
        = map ?g (take (Suc k) cp) @ drop (Suc k) cp"
      using update_map_take_drop[OF k, of ?g] True by simp
    show ?thesis
      unfolding step using r upd
      by (simp add: etcdStep_def Let_def nth markEtcd_def[symmetric])
  next
    case False
    have keep: "map ?g (take k cp) @ drop k cp = map ?g (take (Suc k) cp) @ drop (Suc k) cp"
      using keep_map_take_drop[OF k, of ?g] False by simp
    have "etcdStep fl co etcdMembers k
        (s\<lparr>ControlPlane := map ?g (take k cp) @ drop k cp,
           Calls := Calls s @ map (\<lambda>j. CallEtcdGet (Hosts s (Config (cp ! j)))) [0..<k]\<rparr>)
      = s\<lparr>ControlPlane := map ?g (take k cp) @ drop k cp,
           Calls := Calls s @ map (\<lambda>j. CallEtcdGet (Hosts s (Config (cp ! j)))) [0..<k]
             @ [CallEtcdGet (Hosts s (Config (cp ! k)))]\<rparr>"
    proof (cases "fst (etcdstatusGet co (Hosts s (Config (cp ! k))) etcdMembers)")
      case None
      then show ?thesis by (simp add: etcdStep_def Let_def nth)
    next
      case (Some r)
      with False have "\<not> (Member r \<and> EtcdHealth r)" by (simp add: etcdReported_def)
      with Some show ?thesis by (auto simp: etcdStep_def Let_def nth)
    qed
    then show ?thesis
      unfolding step by (simp add: keep[symmetric])
  qed
qed

lemma etcdPhase_result:
  "etcdPhase fl co s =
     (case etcdstatusMemberList co of
        Inl err \<Rightarrow> (s\<lparr>Calls := Calls s @ [CallEtcdMemberList]\<rparr>, Some err)
      | Inr etcdMembers \<Rightarrow>
          (s\<lparr>ControlPlane :=
                map (\<lambda>h. if etcdReported co etcdMembers (Hosts s) h then markEtcd fl h else h)
                  (ControlPlane s),
              Calls := Calls s @ [CallEtcdMemberList]
                @ map (\<lambda>h. CallEtcdGet (Hosts s (Config h))) (ControlPlane s)\<rparr>,
           None))"
proof (cases "etcdstatusMemberList co")
  case (Inl err)
  then show ?thesis by (simp add: etcdPhase_def)
next
  case (Inr etcdMembers)
  let ?s = "s\<lparr>Calls := Calls s @ [CallEtcdMemberList]\<rparr>"
  have "fold (etcdStep fl co etcdMembers) [0..<length (ControlPlane ?s)] ?s =
      ?s\<lparr>ControlPlane :=
           map (\<lambda>h. if etcdReported co etcdMembers (Hosts ?s) h then markEtcd fl h else h)
             (take (length (ControlPlane ?s)) (ControlPlane ?s))
           @ drop (length (ControlPlane ?s)) (ControlPlane ?s),
         Calls := Calls ?s
           @ map (\<lambda>j. CallEtcdGet (Hosts ?s (Config (ControlPlane ?s ! j))))
               [0..<length (ControlPlane ?s)]\<rparr>"
    by (rule etcdStep_rounds) simp
  then show ?thesis
    using Inr map_nth_upt[of "\<lambda>h. CallEtcdGet (Hosts s (Config h))" "ControlPlane s"]
    by (simp add: etcdPhase_def)
qed

lemma markInCluster_rounds:
  fixes s :: State
  defines "cp \<equiv> ControlPlane s"
  shows "k \<le> length cp \<Longrightarrow>
    fold (markInCluster name) [0..<k] s =
      s\<lparr>ControlPlane :=
           map (\<lambda>h. if name = Hostname (Hosts s (Config h)) then h\<lparr>IsInCluster := True\<rparr> else h)
             (take k cp) @ drop k cp\<rparr>"
proof (induction k)
  case 0
  then show ?case by (simp add: cp_def)
next
  case (Suc k)
  let ?g = "\<lambda>h. if name = Hostname (Hosts s (Config h)) then h\<lparr>IsInCluster := True\<rparr> else h"
  from Suc.prems have k: "k < length cp" by simp
  have nth: "(map ?g (take k cp) @ drop k cp) ! k = cp ! k"
    using k by (rule nth_map_take_drop)
  have step: "fold (markInCluster name) [0..<Suc k] s =
      markInCluster name k (s\<lparr>ControlPlane := map ?g (take k cp) @ drop k cp\<rparr>)"
    using Suc.IH k by simp
  show ?case
  proof (cases "name = Hostname (Hosts s (Config (cp ! k)))")
    case True
    have upd: "(map ?g (take k cp) @ drop k cp)[k := (cp ! k)\<lparr>IsInCluster := True\<rparr>]
        = map ?g (take (Suc k) cp) @ drop (Suc k) cp"
      using update_map_take_drop[OF k, of ?g] True by simp
    show ?thesis
      unfolding step using True upd nth
      by (simp add: markInCluster_def)
  next
    case False
    have keep: "map ?g (take k cp) @ drop k cp = map ?g (take (Suc k) cp) @ drop (Suc k) cp"
      using keep_map_take_drop[OF k, of ?g] False by simp
    from False show ?thesis
      unfolding step
      by (simp add: markInCluster_def nth keep[symmetric])
  qed
qed

lemma markInCluster_loop:
  "fold (markInCluster name) [0..<length (ControlPlane s)] s =
     s\<lparr>ControlPlane :=
          map (\<lambda>h. if name = Hostname (Hosts s (Config h)) then h\<lparr>IsInCluster := True\<rparr> else h)
            (ControlPlane s)\<rparr>"
  using markInCluster_rounds[of "length (ControlPlane s)" s name] by simp

lemma nodeStep_fold:
  "fold (nodeStep known) nodes (s, K) =
     (s\<lparr>ControlPlane :=
          map (\<lambda>h. if Hostname (Hosts s (Config h)) \<in> set nodes \<inter> known
                    then h\<lparr>IsInCluster := True\<rparr> else h)
            (ControlPlane s)\<rparr>,
      set nodes \<union> K)"
proof (induction nodes arbitrary: s K)
  case Nil
  then show ?case by simp
next
  case (Cons n nodes)
  let ?s1 = "if n \<in> known
             then s\<lparr>ControlPlane :=
                      map (\<lambda>h. if n = Hostname (Hosts s (Config h))
                                then h\<lparr>IsInCluster := True\<rparr> else h)
                        (ControlPlane s)\<rparr>
             else s"
  have st: "nodeStep known n (s, K) = (?s1, insert n K)"
    by (simp add: nodeStep_def markInCluster_loop)
  have "fold (nodeStep known) (n # nodes) (s, K) = fold (nodeStep known) nodes (?s1, insert n K)"
    by (simp add: st)
  also have "\<dots> =
     (?s1\<lparr>ControlPlane :=
          map (\<lambda>h. if Hostname (Hosts ?s1 (Config h)) \<in> set nodes \<inter> known
                    then h\<lparr>IsInCluster := True\<rparr> else h)
            (ControlPlane ?s1)\<rparr>,
      set nodes \<union> insert n K)"
    by (rule Cons.IH)
  also have "\<dots> =
     (s\<lparr>ControlPlane :=
          map (\<lambda>h. if Hostname (Hosts s (Config h)) \<in> set (n # nodes) \<inter> known
                    then h\<lparr>IsInCluster := True\<rparr> else h)
            (ControlPlane s)\<rparr>,
      set (n # nodes) \<union> K)"
    by (cases "n \<in> known") auto
  finally show ?case .
qed

lemma knownHosts_fold:
  "fold (\<lambda>host ids. insert (f host) ids) hosts A = f ` set hosts \<union> A"
  by (induction hosts arbitrary: A) auto

section \<open>The phases of investigateCluster\<close>

lemma leaderElection_rounds:
  fixes s :: State and co :: "'m Collaborators"
  defines "cp \<equiv> ControlPlane s"
  assumes f: "f \<le> length cp" "\<forall>j<f. \<not> healthy co s (cp ! j)"
    "f < length cp \<longrightarrow> healthy co s (cp ! f) \<and> distinct (map Config cp)"
  shows "leaderElection fl co s =
      (s\<lparr>Hosts := (if f < length cp
                    then (clearedStore s)
                           (Config (cp ! f) := (clearedStore s (Config (cp ! f)))\<lparr>IsLeader := True\<rparr>)
                    else clearedStore s),
         ControlPlane := map (\<lambda>h. if healthy co s h then markAPIServer fl h else h) cp,
         Calls := Calls s @ map (\<lambda>h. CallApiserverGet (clearedStore s (Config h))) cp\<rparr>,
       f < length cp)"
proof -
  have "fold (electLeader fl co) [0..<length cp] (s\<lparr>Hosts := clearedStore s\<rparr>, False) =
      (s\<lparr>Hosts := (if f < length cp
                    then (clearedStore s)
                           (Config (cp ! f) := (clearedStore s (Config (cp ! f)))\<lparr>IsLeader := True\<rparr>)
                    else clearedStore s),
         ControlPlane :=
           map (\<lambda>h. if healthy co s h then markAPIServer fl h else h) (take (length cp) cp)
             @ drop (length cp) cp,
         Calls := Calls s
           @ map (\<lambda>j. CallApiserverGet (clearedStore s (Config (cp ! j)))) [0..<length cp]\<rparr>,
       f < length cp)"
    using f unfolding cp_def by (intro electLeader_rounds) simp_all
  then show ?thesis
    using map_nth_upt[of "\<lambda>h. CallApiserverGet (clearedStore s (Config h))" cp]
    by (simp add: leaderElection_def clearLeader_loop cp_def)
qed

lemma leaderElection_none:
  assumes "\<forall>h \<in> set (ControlPlane s). \<not> healthy co s h"
  shows "leaderElection fl co s =
      (s\<lparr>Hosts := clearedStore s,
         Calls := Calls s
           @ map (\<lambda>h. CallApiserverGet (clearedStore s (Config h))) (ControlPlane s)\<rparr>,
       False)"
proof -
  have id: "map (\<lambda>h. if healthy co s h then markAPIServer fl h else h) (ControlPlane s)
      = ControlPlane s"
    using assms by (simp add: map_idI)
  show ?thesis
    using leaderElection_rounds[of "length (ControlPlane s)" s co fl] assms
    by (simp add: id)
qed

lemma first_healthy:
  assumes "\<exists>h \<in> set cp. healthy co s h"
  obtains f where "f < length cp" "healthy co s (cp ! f)" "\<forall>j<f. \<not> healthy co s (cp ! j)"
proof -
  from assms obtain i where i: "i < length cp \<and> healthy co s (cp ! i)"
    by (auto simp: in_set_conv_nth)
  let ?f = "LEAST i. i < length cp \<and> healthy co s (cp ! i)"
  have "?f < length cp \<and> healthy co s (cp ! ?f)"
    using i by (rule LeastI)
  moreover have "\<forall>j<?f. \<not> healthy co s (cp ! j)"
  proof (intro allI impI)
    fix j assume j: "j < ?f"
    then have "\<not> (j < length cp \<and> healthy co s (cp ! j))"
      by (rule not_less_Least)
    moreover have "j < length cp"
      using j \<open>?f < length cp \<and> healthy co s (cp ! ?f)\<close> by simp
    ultimately show "\<not> healthy co s (cp ! j)" by simp
  qed
  ultimately show ?thesis using that by blast
qed

lemma leaderElection_first:
  fixes s :: State and co :: "'m Collaborators"
  defines "cp \<equiv> ControlPlane s"
  assumes f: "f < length cp" "healthy co s (cp ! f)" "\<forall>j<f. \<not> healthy co s (cp ! j)"
    and dist: "distinct (map Config cp)"
  shows "leaderElection fl co s =
      (s\<lparr>Hosts := (clearedStore s)
                     (Config (cp ! f) := (clearedStore s (Config (cp ! f)))\<lparr>IsLeader := True\<rparr>),
         ControlPlane := map (\<lambda>h. if healthy co s h then markAPIServer fl h else h) cp,
         Calls := Calls s @ map (\<lambda>h. CallApiserverGet (clearedStore s (Config h))) cp\<rparr>,
       True)"
  using leaderElection_rounds[of f s co fl] f dist by (simp add: cp_def)

text \<open>What the election leaves alone, whatever the pointers are.\<close>

lemma fold_invariant:
  assumes "P x" and "\<And>i y. P y \<Longrightarrow> P (f i y)"
  shows "P (fold f js x)"
  using assms(1) by (induction js arbitrary: x) (simp_all add: assms(2))

lemma map_update_same: "f y = f (xs ! i) \<Longrightarrow> map f (xs[i := y]) = map f xs"
  by (metis list_update_beyond list_update_id map_update nth_map not_le length_map)

lemma leaderElection_frame:
  assumes "leaderElection fl co s = (s1, le)"
  shows "map Config (ControlPlane s1) = map Config (ControlPlane s)"
    and "map IsInCluster (ControlPlane s1) = map IsInCluster (ControlPlane s)"
    and "map Etcd (ControlPlane s1) = map Etcd (ControlPlane s)"
    and "Hostname (Hosts s1 p) = Hostname (Hosts s p)"
    and "DynamicClient s1 = DynamicClient s"
proof -
  let ?P = "\<lambda>(t, b :: bool). map Config (ControlPlane t) = map Config (ControlPlane s)
      \<and> map IsInCluster (ControlPlane t) = map IsInCluster (ControlPlane s)
      \<and> map Etcd (ControlPlane t) = map Etcd (ControlPlane s)
      \<and> (\<forall>p. Hostname (Hosts t p) = Hostname (Hosts s p))
      \<and> DynamicClient t = DynamicClient s"
  have start: "?P (s\<lparr>Hosts := clearedStore s\<rparr>, False)"
    by (simp add: clearedStore_def)
  have step: "?P (electLeader fl co i y)" if "?P y" for i y
    using that
    by (cases y) (auto simp: electLeader_def Let_def map_update_same)
  have "?P (fold (electLeader fl co) [0..<length (ControlPlane s)]
              (s\<lparr>Hosts := clearedStore s\<rparr>, False))"
    using start step by (rule fold_invariant)
  then have "?P (s1, le)"
    using assms by (simp add: leaderElection_def clearLeader_loop)
  then show "map Config (ControlPlane s1) = map Config (ControlPlane s)"
    and "map IsInCluster (ControlPlane s1) = map IsInCluster (ControlPlane s)"
    and "map Etcd (ControlPlane s1) = map Etcd (ControlPlane s)"
    and "Hostname (Hosts s1 p) = Hostname (Hosts s p)"
    and "DynamicClient s1 = DynamicClient s"
    by simp_all
qed

lemma hostnames_cong:
  assumes "map Config (ControlPlane t) = map Config (ControlPlane s)"
    and "\<And>p. Hostname (Hosts t p) = Hostname (Hosts s p)"
  shows "hostnames t = hostnames s"
proof -
  have "hostnames t = map (\<lambda>p. Hostname (Hosts t p)) (map Config (ControlPlane t))"
    by (simp add: hostnames_def comp_def)
  also have "\<dots> = map (\<lambda>p. Hostname (Hosts s p)) (map Config (ControlPlane s))"
    using assms by simp
  also have "\<dots> = hostnames s"
    by (simp add: hostnames_def comp_def)
  finally show ?thesis .
qed

text \<open>The node-set phase, when the client is there or can be built and the listing succeeds.\<close>

lemma nodeSetReconciliation_result:
  assumes cl: "DynamicClient s \<or> BuildKubernetesClientset co = None"
    and ls: "ListNodes co = Inr nodes"
  shows "nodeSetReconciliation co s =
     (s\<lparr>DynamicClient := True,
        Calls := Calls s @ (if DynamicClient s then [] else [CallBuildClientset])
                   @ [CallListNodes],
        ControlPlane :=
          map (\<lambda>h. if Hostname (Hosts s (Config h)) \<in> set nodes
                    then h\<lparr>IsInCluster := True\<rparr> else h)
            (ControlPlane s)\<rparr>,
      Some \<lparr>hostsToBeProvisioned = set (hostnames s) - set nodes,
            nodesToBeRemoved = set nodes - set (hostnames s)\<rparr>,
      None)"
proof -
  have known: "(\<lambda>h. Hostname (Hosts s (Config h))) ` set (ControlPlane s) = set (hostnames s)"
    by (simp add: hostnames_def)
  have m: "map (\<lambda>h. if Hostname (Hosts s (Config h)) \<in> set nodes
                         \<and> Hostname (Hosts s (Config h)) \<in> set (hostnames s)
                    then h\<lparr>IsInCluster := True\<rparr> else h) (ControlPlane s)
      = map (\<lambda>h. if Hostname (Hosts s (Config h)) \<in> set nodes
                    then h\<lparr>IsInCluster := True\<rparr> else h) (ControlPlane s)"
    by (rule map_cong) (auto simp: hostnames_def)
  show ?thesis
  proof (cases "DynamicClient s")
    case True
    then show ?thesis
      using ls
      by (simp add: nodeSetReconciliation_def Let_def knownHosts_fold nodeStep_fold known m)
  next
    case False
    with cl have "BuildKubernetesClientset co = None" by simp
    with False show ?thesis
      using ls
      by (simp add: nodeSetReconciliation_def Let_def knownHosts_fold nodeStep_fold known m)
  qed
qed

text \<open>What the node-set phase leaves alone, whatever it returns.\<close>

lemma nodeSetReconciliation_frame:
  fixes s :: State and co :: "'m Collaborators"
  defines "s' \<equiv> fst (nodeSetReconciliation co s)"
  shows "Hosts s' = Hosts s"
    and "map Config (ControlPlane s') = map Config (ControlPlane s)"
    and "map APIServer (ControlPlane s') = map APIServer (ControlPlane s)"
    and "map Etcd (ControlPlane s') = map Etcd (ControlPlane s)"
    and "\<exists>more. Calls s' = Calls s @ more"
  unfolding s'_def
  by (auto simp: nodeSetReconciliation_def Let_def knownHosts_fold nodeStep_fold comp_def
      split: option.splits sum.splits)

lemma etcdPhase_frame:
  fixes s :: State and co :: "'m Collaborators" and fl :: StatusFlags
  defines "s' \<equiv> fst (etcdPhase fl co s)"
  shows "Hosts s' = Hosts s"
    and "map Config (ControlPlane s') = map Config (ControlPlane s)"
    and "map APIServer (ControlPlane s') = map APIServer (ControlPlane s)"
    and "map IsInCluster (ControlPlane s') = map IsInCluster (ControlPlane s)"
    and "DynamicClient s' = DynamicClient s"
    and "\<exists>more. Calls s' = Calls s @ more"
  unfolding s'_def
  by (auto simp: etcdPhase_result comp_def split: sum.splits)

section \<open>Reconciliation\<close>

text \<open>
  The live hosts \<^verbatim>\<open>runProbes\<close> builds point to distinct configured hosts, are
  outside the cluster and have empty bitmasks: the states the statements below are about.
\<close>

lemma newControlPlane_fresh:
  "distinct (map Config (newControlPlane n))"
  "h \<in> set (newControlPlane n) \<Longrightarrow>
     \<not> IsInCluster h \<and> Status (APIServer h) = 0 \<and> Status (Etcd h) = 0"
proof -
  have "map Config (newControlPlane n) = [0..<n]"
    by (simp add: newControlPlane_def comp_def newHost_def)
  then show "distinct (map Config (newControlPlane n))"
    by simp
  show "h \<in> set (newControlPlane n) \<Longrightarrow>
     \<not> IsInCluster h \<and> Status (APIServer h) = 0 \<and> Status (Etcd h) = 0"
    by (auto simp: newControlPlane_def newHost_def)
qed

lemma investigateCluster_after_election:
  assumes prov: "IsProvisioned co (Hosts s) (ControlPlane s)"
    and el: "leaderElection fl co s = (s1, le)"
    and res: "investigateCluster fl co s = (s', diag, err)"
  shows "Hosts s' = Hosts s1"
    and "map Config (ControlPlane s') = map Config (ControlPlane s1)"
    and "map APIServer (ControlPlane s') = map APIServer (ControlPlane s1)"
    and "\<exists>more. Calls s' = Calls s1 @ more"
proof -
  obtain s2 e2 where et: "etcdPhase fl co s1 = (s2, e2)"
    by (cases "etcdPhase fl co s1") auto
  note f2 = etcdPhase_frame[of fl co s1, unfolded et fst_conv]
  note f3 = nodeSetReconciliation_frame[of co s2]
  have "Hosts s' = Hosts s1
      \<and> map Config (ControlPlane s') = map Config (ControlPlane s1)
      \<and> map APIServer (ControlPlane s') = map APIServer (ControlPlane s1)
      \<and> (\<exists>more. Calls s' = Calls s1 @ more)"
  proof (cases le)
    case False
    with prov el res have "s' = s1" by (simp add: investigateCluster_def)
    then show ?thesis by simp
  next
    case True
    show ?thesis
    proof (cases e2)
      case (Some e)
      with prov el et res True have "s' = s2" by (simp add: investigateCluster_def)
      with f2 show ?thesis by simp
    next
      case None
      with prov el et res True have "s' = fst (nodeSetReconciliation co s2)"
        by (simp add: investigateCluster_def)
      with f2 f3 show ?thesis by auto
    qed
  qed
  then show "Hosts s' = Hosts s1"
    and "map Config (ControlPlane s') = map Config (ControlPlane s1)"
    and "map APIServer (ControlPlane s') = map APIServer (ControlPlane s1)"
    and "\<exists>more. Calls s' = Calls s1 @ more"
    by simp_all
qed

lemma length_filter_le_1:
  assumes "{i. i < length xs \<and> P (xs ! i)} \<subseteq> {f}"
  shows "length (filter P xs) \<le> 1"
proof -
  have "length (filter P xs) = card {i. i < length xs \<and> P (xs ! i)}"
    by (rule length_filter_conv_card)
  also have "\<dots> \<le> card {f}"
    using assms by (intro card_mono) simp_all
  finally show ?thesis by simp
qed

lemma cleared_queries:
  "map (\<lambda>h. CallApiserverGet (clearedStore s (Config h))) (ControlPlane s)
     = map (\<lambda>h. CallApiserverGet ((Hosts s (Config h))\<lparr>IsLeader := False\<rparr>)) (ControlPlane s)"
  by (rule map_cong) (simp_all add: clearedStore_live)

lemma election_outcome:
  assumes dist: "distinct (map Config (ControlPlane s))"
    and el: "leaderElection fl co s = (s1, le)"
  shows "\<forall>i < length (ControlPlane s).
      IsLeader (Hosts s1 (Config (ControlPlane s ! i))) \<longleftrightarrow>
        healthy co s (ControlPlane s ! i) \<and> (\<forall>j<i. \<not> healthy co s (ControlPlane s ! j))"
    and "Calls s1 = Calls s
        @ map (\<lambda>h. CallApiserverGet (clearedStore s (Config h))) (ControlPlane s)"
    and "ControlPlane s1
        = map (\<lambda>h. if healthy co s h then markAPIServer fl h else h) (ControlPlane s)"
    and "le \<longleftrightarrow> (\<exists>h \<in> set (ControlPlane s). healthy co s h)"
proof -
  let ?cp = "ControlPlane s"
  let ?goal = "(\<forall>i < length ?cp.
      IsLeader (Hosts s1 (Config (?cp ! i))) \<longleftrightarrow>
        healthy co s (?cp ! i) \<and> (\<forall>j<i. \<not> healthy co s (?cp ! j)))
    \<and> Calls s1 = Calls s @ map (\<lambda>h. CallApiserverGet (clearedStore s (Config h))) ?cp
    \<and> ControlPlane s1 = map (\<lambda>h. if healthy co s h then markAPIServer fl h else h) ?cp
    \<and> (le \<longleftrightarrow> (\<exists>h \<in> set ?cp. healthy co s h))"
  have ?goal
  proof (cases "\<exists>h \<in> set ?cp. healthy co s h")
    case False
    then have none: "\<forall>h \<in> set ?cp. \<not> healthy co s h" by simp
    have id: "map (\<lambda>h. if healthy co s h then markAPIServer fl h else h) ?cp = ?cp"
      using none by (simp add: map_idI)
    have "(s1, le) = (s\<lparr>Hosts := clearedStore s,
          Calls := Calls s @ map (\<lambda>h. CallApiserverGet (clearedStore s (Config h))) ?cp\<rparr>,
        False)"
      using leaderElection_none[OF none, of fl] el by simp
    then show ?thesis
      using none by (auto simp: clearedStore_def id)
  next
    case True
    then obtain f where f: "f < length ?cp" "healthy co s (?cp ! f)"
      "\<forall>j<f. \<not> healthy co s (?cp ! j)"
      by (rule first_healthy)
    have r: "(s1, le) =
      (s\<lparr>Hosts := (clearedStore s)
                     (Config (?cp ! f) := (clearedStore s (Config (?cp ! f)))\<lparr>IsLeader := True\<rparr>),
         ControlPlane := map (\<lambda>h. if healthy co s h then markAPIServer fl h else h) ?cp,
         Calls := Calls s @ map (\<lambda>h. CallApiserverGet (clearedStore s (Config h))) ?cp\<rparr>,
       True)"
      using leaderElection_first[OF f dist, of fl] el by simp
    then have s1: "Hosts s1 = (clearedStore s)
          (Config (?cp ! f) := (clearedStore s (Config (?cp ! f)))\<lparr>IsLeader := True\<rparr>)"
      by auto
    have "\<forall>i < length ?cp.
      IsLeader (Hosts s1 (Config (?cp ! i))) \<longleftrightarrow>
        healthy co s (?cp ! i) \<and> (\<forall>j<i. \<not> healthy co s (?cp ! j))"
    proof (intro allI impI)
      fix i assume i: "i < length ?cp"
      have same: "Config (?cp ! i) = Config (?cp ! f) \<longleftrightarrow> i = f"
        using dist i f(1) by (metis length_map nth_eq_iff_index_eq nth_map)
      have first: "(healthy co s (?cp ! i) \<and> (\<forall>j<i. \<not> healthy co s (?cp ! j))) \<longleftrightarrow> i = f"
        using f(2,3) by (metis linorder_neqE_nat)
      have "IsLeader (Hosts s1 (Config (?cp ! i))) \<longleftrightarrow> i = f"
        using same i by (auto simp: s1 clearedStore_def)
      with first show "IsLeader (Hosts s1 (Config (?cp ! i))) \<longleftrightarrow>
          healthy co s (?cp ! i) \<and> (\<forall>j<i. \<not> healthy co s (?cp ! j))"
        by simp
    qed
    with r True show ?thesis by auto
  qed
  then show "\<forall>i < length (ControlPlane s).
      IsLeader (Hosts s1 (Config (ControlPlane s ! i))) \<longleftrightarrow>
        healthy co s (ControlPlane s ! i) \<and> (\<forall>j<i. \<not> healthy co s (ControlPlane s ! j))"
    and "Calls s1 = Calls s
        @ map (\<lambda>h. CallApiserverGet (clearedStore s (Config h))) (ControlPlane s)"
    and "ControlPlane s1
        = map (\<lambda>h. if healthy co s h then markAPIServer fl h else h) (ControlPlane s)"
    and "le \<longleftrightarrow> (\<exists>h \<in> set (ControlPlane s). healthy co s h)"
    by blast+
qed


lemma exampleState_simps:
  "Hosts (exampleState cs) = storeOf cs"
  "ControlPlane (exampleState [a, b, c]) = [newHost 0, newHost 1, newHost 2]"
  "DynamicClient (exampleState cs) = False"
  "Calls (exampleState cs) = []"
  by (simp_all add: exampleState_def newControlPlane_def upt_rec numeral_2_eq_2)

lemma newHost_Config [simp]: "Config (newHost p) = p"
  by (simp add: newHost_def)

lemma exampleCollaborators_simps:
  "IsProvisioned (exampleCollaborators up members nodes) hp cp = (cp \<noteq> [])"
  "apiserverstatusGet (exampleCollaborators up members nodes) cfg =
     (if Hostname cfg \<in> set up then (\<lparr>Health = True\<rparr>, None)
      else (\<lparr>Health = False\<rparr>, Some (Collaborator ''apiserver: connection refused'')))"
  "etcdstatusMemberList (exampleCollaborators up members nodes) = members"
  "etcdstatusGet (exampleCollaborators up members nodes) cfg ms =
     (if Hostname cfg \<in> set ms then (Some \<lparr>Member = True, EtcdHealth = True\<rparr>, None)
      else (None, Some (Collaborator ''etcd: member not found'')))"
  "BuildKubernetesClientset (exampleCollaborators up members nodes) = None"
  "ListNodes (exampleCollaborators up members nodes) = Inr nodes"
  by (simp_all add: exampleCollaborators_def)

lemma hostsABC_healthy:
  "healthy (exampleCollaborators up members nodes) (exampleState hostsABC) (newHost 0)
     = (''A'' \<in> set up)"
  "healthy (exampleCollaborators up members nodes) (exampleState hostsABC) (newHost 1)
     = (''B'' \<in> set up)"
  "healthy (exampleCollaborators up members nodes) (exampleState hostsABC) (newHost 2)
     = (''C'' \<in> set up)"
  by (simp_all add: healthy_def clearedStore_def exampleState_simps hostsABC_def
      exampleCollaborators_simps storeOf_def hostNamed_def)

text \<open>
  C1. Let the cluster be provisioned and let the live hosts point to distinct configured
  hosts, as \<^verbatim>\<open>runProbes\<close> builds them. Whatever \<open>investigateCluster\<close> returns, the
  first calls it makes are the health queries of the hosts in their configured order,
  each about a configuration whose leader flag is already cleared; afterwards a host's
  leader flag is true iff the host is healthy and no host before it is; and at most one
  live host has its leader flag true.
\<close>

theorem leader_is_first_healthy_host:
  assumes prov: "IsProvisioned co (Hosts s) (ControlPlane s)"
    and dist: "distinct (map Config (ControlPlane s))"
    and res: "investigateCluster fl co s = (s', diag, err)"
  shows "(\<forall>i < length (ControlPlane s).
            IsLeader (Hosts s' (Config (ControlPlane s ! i))) \<longleftrightarrow>
              healthy co s (ControlPlane s ! i)
              \<and> (\<forall>j<i. \<not> healthy co s (ControlPlane s ! j)))
       \<and> map Config (ControlPlane s') = map Config (ControlPlane s)
       \<and> length (filter (\<lambda>h. IsLeader (Hosts s' (Config h))) (ControlPlane s')) \<le> 1
       \<and> take (length (ControlPlane s)) (drop (length (Calls s)) (Calls s'))
           = map (\<lambda>h. CallApiserverGet ((Hosts s (Config h))\<lparr>IsLeader := False\<rparr>))
               (ControlPlane s)"
proof -
  let ?cp = "ControlPlane s"
  obtain s1 le where el: "leaderElection fl co s = (s1, le)"
    by (cases "leaderElection fl co s") auto
  note after = investigateCluster_after_election[OF prov el res]
  note frame = leaderElection_frame[OF el]
  have cfg: "map Config (ControlPlane s') = map Config ?cp"
    using after(2) frame(1) by simp
  then have len: "length (ControlPlane s') = length ?cp"
    by (metis length_map)
  have cfg_nth: "Config (ControlPlane s' ! i) = Config (?cp ! i)" if "i < length ?cp" for i
    using that cfg len by (metis nth_map)
  obtain more where more: "Calls s' = Calls s1 @ more"
    using after(4) by blast
  note out = election_outcome[OF dist el]
  note leader = out(1) and calls = out(2)
  have c1: "\<forall>i < length ?cp.
      IsLeader (Hosts s' (Config (?cp ! i))) \<longleftrightarrow>
        healthy co s (?cp ! i) \<and> (\<forall>j<i. \<not> healthy co s (?cp ! j))"
    using leader after(1) by simp
  have c3: "length (filter (\<lambda>h. IsLeader (Hosts s' (Config h))) (ControlPlane s')) \<le> 1"
  proof (cases "\<exists>h \<in> set ?cp. healthy co s h")
    case False
    then have no: "\<not> healthy co s (?cp ! i)" if "i < length ?cp" for i
      using that nth_mem by blast
    have "{i. i < length (ControlPlane s')
        \<and> IsLeader (Hosts s' (Config (ControlPlane s' ! i)))} \<subseteq> {0}"
      using c1 len cfg_nth no by auto
    then show ?thesis by (rule length_filter_le_1)
  next
    case True
    then obtain f where f: "f < length ?cp" "healthy co s (?cp ! f)"
      "\<forall>j<f. \<not> healthy co s (?cp ! j)"
      by (rule first_healthy)
    have "{i. i < length (ControlPlane s')
        \<and> IsLeader (Hosts s' (Config (ControlPlane s' ! i)))} \<subseteq> {f}"
    proof
      fix i assume "i \<in> {i. i < length (ControlPlane s')
        \<and> IsLeader (Hosts s' (Config (ControlPlane s' ! i)))}"
      then have i: "i < length ?cp" and "IsLeader (Hosts s' (Config (?cp ! i)))"
        using len cfg_nth by auto
      with c1 have "healthy co s (?cp ! i)" "\<forall>j<i. \<not> healthy co s (?cp ! j)"
        by auto
      with f(2,3) have "i = f" by (metis linorder_neqE_nat)
      then show "i \<in> {f}" by simp
    qed
    then show ?thesis by (rule length_filter_le_1)
  qed
  have c4: "take (length ?cp) (drop (length (Calls s)) (Calls s'))
      = map (\<lambda>h. CallApiserverGet ((Hosts s (Config h))\<lparr>IsLeader := False\<rparr>)) ?cp"
    by (simp add: more calls cleared_queries)
  from c1 cfg c3 c4 show ?thesis by blast
qed


theorem leader_is_first_healthy_host_witness:
  "IsProvisioned (exampleCollaborators [''B'', ''C''] (Inr [''B'', ''C'']) [''A'', ''B'', ''C''])
      (Hosts (exampleState hostsABC)) (ControlPlane (exampleState hostsABC))
   \<and> distinct (map Config (ControlPlane (exampleState hostsABC)))
   \<and> \<not> IsLeader (Hosts (fst (investigateCluster exampleFlags
          (exampleCollaborators [''B'', ''C''] (Inr [''B'', ''C'']) [''A'', ''B'', ''C''])
          (exampleState hostsABC))) 0)
   \<and> IsLeader (Hosts (fst (investigateCluster exampleFlags
          (exampleCollaborators [''B'', ''C''] (Inr [''B'', ''C'']) [''A'', ''B'', ''C''])
          (exampleState hostsABC))) 1)
   \<and> \<not> IsLeader (Hosts (fst (investigateCluster exampleFlags
          (exampleCollaborators [''B'', ''C''] (Inr [''B'', ''C'']) [''A'', ''B'', ''C''])
          (exampleState hostsABC))) 2)
   \<and> length (filter
        (\<lambda>h. IsLeader (Hosts (fst (investigateCluster exampleFlags
          (exampleCollaborators [''B'', ''C''] (Inr [''B'', ''C'']) [''A'', ''B'', ''C''])
          (exampleState hostsABC))) (Config h)))
        (ControlPlane (fst (investigateCluster exampleFlags
          (exampleCollaborators [''B'', ''C''] (Inr [''B'', ''C'']) [''A'', ''B'', ''C''])
          (exampleState hostsABC))))) \<le> 1"
proof -
  let ?co = "exampleCollaborators [''B'', ''C''] (Inr [''B'', ''C'']) [''A'', ''B'', ''C'']"
  let ?s = "exampleState hostsABC"
  let ?r = "investigateCluster exampleFlags ?co ?s"
  have cp: "ControlPlane ?s = [newHost 0, newHost 1, newHost 2]"
    by (simp add: hostsABC_def exampleState_simps)
  have prov: "IsProvisioned ?co (Hosts ?s) (ControlPlane ?s)"
    by (simp add: exampleCollaborators_simps cp)
  have dist: "distinct (map Config (ControlPlane ?s))"
    by (simp add: cp)
  have res: "?r = (fst ?r, fst (snd ?r), snd (snd ?r))"
    by simp
  have h: "\<not> healthy ?co ?s (newHost 0)" "healthy ?co ?s (newHost 1)"
    "healthy ?co ?s (newHost 2)"
    by (simp_all add: hostsABC_healthy del: One_nat_def)
  note t = leader_is_first_healthy_host[OF prov dist res]
  from t have l: "\<forall>i < length (ControlPlane ?s).
      IsLeader (Hosts (fst ?r) (Config (ControlPlane ?s ! i))) \<longleftrightarrow>
        healthy ?co ?s (ControlPlane ?s ! i)
        \<and> (\<forall>j<i. \<not> healthy ?co ?s (ControlPlane ?s ! j))"
    by blast
  have l0: "\<not> IsLeader (Hosts (fst ?r) 0)"
    using l[rule_format, of 0] h by (simp add: cp)
  have l1: "IsLeader (Hosts (fst ?r) 1)"
    using l[rule_format, of 1] h by (simp add: cp)
  have "\<not> (\<forall>j<2. \<not> healthy ?co ?s (ControlPlane ?s ! j))"
  proof
    assume "\<forall>j<2. \<not> healthy ?co ?s (ControlPlane ?s ! j)"
    then have "\<not> healthy ?co ?s (ControlPlane ?s ! 1)" by simp
    with h(2) show False by (simp add: cp)
  qed
  then have l2: "\<not> IsLeader (Hosts (fst ?r) 2)"
    using l[rule_format, of 2] by (simp add: cp)
  from t have "length (filter (\<lambda>h. IsLeader (Hosts (fst ?r) (Config h)))
      (ControlPlane (fst ?r))) \<le> 1"
    by blast
  with prov dist l0 l1 l2 show ?thesis by simp
qed

lemma investigateCluster_quorum_lost:
  assumes prov: "IsProvisioned co (Hosts s) (ControlPlane s)"
    and none: "\<forall>h \<in> set (ControlPlane s). \<not> healthy co s h"
  shows "investigateCluster fl co s =
     (s\<lparr>Hosts := clearedStore s,
        Calls := Calls s
          @ map (\<lambda>h. CallApiserverGet ((Hosts s (Config h))\<lparr>IsLeader := False\<rparr>))
              (ControlPlane s)\<rparr>,
      None, Some QuorumLostError)"
  using prov leaderElection_none[OF none, of fl]
  by (simp add: investigateCluster_def cleared_queries)

text \<open>
  C2. Let the cluster be provisioned and let no live host be healthy. Then
  \<open>investigateCluster\<close> returns the quorum-lost error and prints no difference sets; the
  only calls it has made are the health queries, one per host (no etcd member list, no
  etcd lookup, no client, no node listing); the live hosts are as they were; and no live
  host has its leader flag set.
\<close>

theorem no_healthy_host_quorum_lost:
  assumes prov: "IsProvisioned co (Hosts s) (ControlPlane s)"
    and none: "\<forall>h \<in> set (ControlPlane s). \<not> healthy co s h"
    and res: "investigateCluster fl co s = (s', diag, err)"
  shows "err = Some QuorumLostError \<and> diag = None
     \<and> (\<forall>h \<in> set (ControlPlane s'). \<not> IsLeader (Hosts s' (Config h)))
     \<and> ControlPlane s' = ControlPlane s
     \<and> DynamicClient s' = DynamicClient s
     \<and> Calls s' = Calls s
          @ map (\<lambda>h. CallApiserverGet ((Hosts s (Config h))\<lparr>IsLeader := False\<rparr>))
              (ControlPlane s)"
  using res unfolding investigateCluster_quorum_lost[OF prov none]
  by (auto simp: clearedStore_def)

theorem no_healthy_host_quorum_lost_witness:
  "IsProvisioned (exampleCollaborators [] (Inr [''B'', ''C'']) [''A'', ''B'', ''C''])
      (Hosts (exampleState hostsABC)) (ControlPlane (exampleState hostsABC))
   \<and> \<not> healthy (exampleCollaborators [] (Inr [''B'', ''C'']) [''A'', ''B'', ''C''])
          (exampleState hostsABC) (newHost 0)
   \<and> \<not> healthy (exampleCollaborators [] (Inr [''B'', ''C'']) [''A'', ''B'', ''C''])
          (exampleState hostsABC) (newHost 1)
   \<and> \<not> healthy (exampleCollaborators [] (Inr [''B'', ''C'']) [''A'', ''B'', ''C''])
          (exampleState hostsABC) (newHost 2)
   \<and> snd (snd (investigateCluster exampleFlags
          (exampleCollaborators [] (Inr [''B'', ''C'']) [''A'', ''B'', ''C''])
          (exampleState hostsABC))) = Some QuorumLostError
   \<and> \<not> IsLeader (Hosts (fst (investigateCluster exampleFlags
          (exampleCollaborators [] (Inr [''B'', ''C'']) [''A'', ''B'', ''C''])
          (exampleState hostsABC))) 0)
   \<and> \<not> IsLeader (Hosts (fst (investigateCluster exampleFlags
          (exampleCollaborators [] (Inr [''B'', ''C'']) [''A'', ''B'', ''C''])
          (exampleState hostsABC))) 1)
   \<and> \<not> IsLeader (Hosts (fst (investigateCluster exampleFlags
          (exampleCollaborators [] (Inr [''B'', ''C'']) [''A'', ''B'', ''C''])
          (exampleState hostsABC))) 2)
   \<and> length (Calls (fst (investigateCluster exampleFlags
          (exampleCollaborators [] (Inr [''B'', ''C'']) [''A'', ''B'', ''C''])
          (exampleState hostsABC)))) = 3"
proof -
  let ?co = "exampleCollaborators [] (Inr [''B'', ''C'']) [''A'', ''B'', ''C'']"
  let ?s = "exampleState hostsABC"
  let ?r = "investigateCluster exampleFlags ?co ?s"
  have cp: "ControlPlane ?s = [newHost 0, newHost 1, newHost 2]"
    by (simp add: hostsABC_def exampleState_simps)
  have prov: "IsProvisioned ?co (Hosts ?s) (ControlPlane ?s)"
    by (simp add: exampleCollaborators_simps cp)
  have h: "\<not> healthy ?co ?s (newHost 0)" "\<not> healthy ?co ?s (newHost 1)"
    "\<not> healthy ?co ?s (newHost 2)"
    by (simp_all add: hostsABC_healthy del: One_nat_def)
  then have none: "\<forall>h \<in> set (ControlPlane ?s). \<not> healthy ?co ?s h"
    by (simp add: cp)
  have res: "?r = (fst ?r, fst (snd ?r), snd (snd ?r))"
    by simp
  note t = no_healthy_host_quorum_lost[OF prov none res]
  from t have cp': "ControlPlane (fst ?r) = [newHost 0, newHost 1, newHost 2]"
    using cp by simp
  from t have "\<forall>h \<in> set (ControlPlane (fst ?r)). \<not> IsLeader (Hosts (fst ?r) (Config h))"
    by blast
  then have l: "\<not> IsLeader (Hosts (fst ?r) 0)" "\<not> IsLeader (Hosts (fst ?r) 1)"
    "\<not> IsLeader (Hosts (fst ?r) 2)"
    unfolding cp' by simp_all
  from t have "length (Calls (fst ?r)) = 3"
    by (simp add: cp exampleState_simps)
  with t prov h l show ?thesis by simp
qed

lemma investigateCluster_elected:
  assumes prov: "IsProvisioned co (Hosts s) (ControlPlane s)"
    and el: "leaderElection fl co s = (s1, True)"
  shows "investigateCluster fl co s =
     (case etcdPhase fl co s1 of
        (s2, Some e) \<Rightarrow> (s2, None, Some e)
      | (s2, None) \<Rightarrow> nodeSetReconciliation co s2)"
  using prov el by (simp add: investigateCluster_def)







lemma etcdReported_Config:
  "Config h = Config h' \<Longrightarrow> etcdReported co m hp h = etcdReported co m hp h'"
  by (simp add: etcdReported_def)

lemma etcdReported_ignores_error:
  "etcdReported (co\<lparr>etcdstatusGet := \<lambda>cfg m. (fst (etcdstatusGet co cfg m), None)\<rparr>)
     = etcdReported co"
  by (simp add: etcdReported_def fun_eq_iff)

lemma investigateCluster_ignores_etcd_error:
  "investigateCluster fl
     (co\<lparr>etcdstatusGet := \<lambda>cfg m. (fst (etcdstatusGet co cfg m), None)\<rparr>) s
   = investigateCluster fl co s"
proof -
  let ?co = "co\<lparr>etcdstatusGet := \<lambda>cfg m. (fst (etcdstatusGet co cfg m), None)\<rparr>"
  have 0: "electLeader fl ?co = electLeader fl co"
    by (simp add: electLeader_def fun_eq_iff)
  have 1: "leaderElection fl ?co = leaderElection fl co"
    by (simp add: leaderElection_def 0 fun_eq_iff)
  have 2: "etcdPhase fl ?co = etcdPhase fl co"
    by (auto simp: etcdPhase_result etcdReported_ignores_error fun_eq_iff split: sum.splits)
  have 3: "nodeSetReconciliation ?co = nodeSetReconciliation co"
    by (auto simp: nodeSetReconciliation_def fun_eq_iff split: option.splits sum.splits)
  show ?thesis
    unfolding investigateCluster_def 1 2 3 by simp
qed

text \<open>
  C5. Let the cluster be provisioned and a leader be elected, \<open>s1\<close> being the state after
  the election. If the fetch of the etcd member list fails, \<open>investigateCluster\<close> returns
  that error, having made no call after the fetch. If the fetch succeeds, every host is
  looked up, in order, whatever the lookups before it returned; the errors of the lookups
  are dropped (replacing each by nil changes nothing in what the call returns); what the
  call returns is what the node-set phase returns; and the etcd bitmask of a host gets
  the PodRunning flag iff the lookup of that host returned a report with both
  \<^verbatim>\<open>Member\<close> and \<^verbatim>\<open>Health\<close>, and is left as it was otherwise, in particular when
  the lookup failed and returned no report.
\<close>

theorem etcd_member_list_fatal_lookup_tolerated:
  assumes ind: "independent fl"
    and prov: "IsProvisioned co (Hosts s) (ControlPlane s)"
    and el: "leaderElection fl co s = (s1, True)"
    and res: "investigateCluster fl co s = (s', diag, err)"
  shows "(\<forall>e. etcdstatusMemberList co = Inl e \<longrightarrow>
            err = Some e \<and> diag = None
            \<and> s' = s1\<lparr>Calls := Calls s1 @ [CallEtcdMemberList]\<rparr>)
     \<and> (\<forall>m. etcdstatusMemberList co = Inr m \<longrightarrow>
            (\<forall>i < length (ControlPlane s).
               Status (Etcd (ControlPlane s' ! i))
                 = (if etcdReported co m (Hosts s') (ControlPlane s ! i)
                    then Status (Etcd (ControlPlane s ! i)) OR PodRunning fl
                    else Status (Etcd (ControlPlane s ! i)))
               \<and> (has (Status (Etcd (ControlPlane s' ! i))) (PodRunning fl)
                    \<longleftrightarrow> has (Status (Etcd (ControlPlane s ! i))) (PodRunning fl)
                        \<or> etcdReported co m (Hosts s') (ControlPlane s ! i)))
            \<and> take (Suc (length (ControlPlane s))) (drop (length (Calls s1)) (Calls s'))
                = CallEtcdMemberList
                    # map (\<lambda>h. CallEtcdGet (Hosts s' (Config h))) (ControlPlane s)
            \<and> (s', diag, err) = nodeSetReconciliation co (fst (etcdPhase fl co s1)))
     \<and> investigateCluster fl
          (co\<lparr>etcdstatusGet := \<lambda>cfg m. (fst (etcdstatusGet co cfg m), None)\<rparr>) s
        = (s', diag, err)"
proof (intro conjI allI impI)
  fix e assume e: "etcdstatusMemberList co = Inl e"
  then have "etcdPhase fl co s1 = (s1\<lparr>Calls := Calls s1 @ [CallEtcdMemberList]\<rparr>, Some e)"
    by (simp add: etcdPhase_result)
  with res show "err = Some e" "diag = None"
    "s' = s1\<lparr>Calls := Calls s1 @ [CallEtcdMemberList]\<rparr>"
    by (simp_all add: investigateCluster_elected[OF prov el])
next
  fix m assume m: "etcdstatusMemberList co = Inr m"
  let ?g = "\<lambda>h. if etcdReported co m (Hosts s1) h then markEtcd fl h else h"
  let ?s2 = "s1\<lparr>ControlPlane := map ?g (ControlPlane s1),
      Calls := Calls s1 @ [CallEtcdMemberList]
        @ map (\<lambda>h. CallEtcdGet (Hosts s1 (Config h))) (ControlPlane s1)\<rparr>"
  have et: "etcdPhase fl co s1 = (?s2, None)"
    using m by (simp add: etcdPhase_result)
  have r: "(s', diag, err) = nodeSetReconciliation co ?s2"
    using res by (simp add: investigateCluster_elected[OF prov el] et)
  then show "(s', diag, err) = nodeSetReconciliation co (fst (etcdPhase fl co s1))"
    by (simp add: et)
  from r have s': "s' = fst (nodeSetReconciliation co ?s2)"
    by (metis fst_conv)
  note f3 = nodeSetReconciliation_frame[of co ?s2, folded s']
  note f1 = leaderElection_frame[OF el]
  have hosts: "Hosts s' = Hosts s1"
    using f3(1) by simp
  have len1: "length (ControlPlane s1) = length (ControlPlane s)"
    using f1(1) by (metis length_map)
  have cfg1: "Config (ControlPlane s1 ! i) = Config (ControlPlane s ! i)"
    if "i < length (ControlPlane s)" for i
    using that f1(1) len1 by (metis nth_map)
  have etcd1: "Etcd (ControlPlane s1 ! i) = Etcd (ControlPlane s ! i)"
    if "i < length (ControlPlane s)" for i
    using that f1(3) len1 by (metis nth_map)
  have "length (map Config (ControlPlane s')) = length (map Config (ControlPlane ?s2))"
    using f3(2) by simp
  then have len': "length (ControlPlane s') = length (ControlPlane s)"
    using len1 by simp
  have etcd': "Etcd (ControlPlane s' ! i) = Etcd (?g (ControlPlane s1 ! i))"
    if "i < length (ControlPlane s)" for i
  proof -
    have "map Etcd (ControlPlane s') ! i = map Etcd (map ?g (ControlPlane s1)) ! i"
      using f3(4) by simp
    then show ?thesis
      using that len' len1 by simp
  qed
  have rep: "etcdReported co m (Hosts s1) (ControlPlane s1 ! i)
      = etcdReported co m (Hosts s') (ControlPlane s ! i)"
    if "i < length (ControlPlane s)" for i
    using etcdReported_Config[OF cfg1[OF that]] hosts by simp
  show "Status (Etcd (ControlPlane s' ! i))
          = (if etcdReported co m (Hosts s') (ControlPlane s ! i)
             then Status (Etcd (ControlPlane s ! i)) OR PodRunning fl
             else Status (Etcd (ControlPlane s ! i)))"
    if "i < length (ControlPlane s)" for i
    using etcd'[OF that] rep[OF that] etcd1[OF that]
    by (simp add: markEtcd_def)
  then show "has (Status (Etcd (ControlPlane s' ! i))) (PodRunning fl)
        \<longleftrightarrow> has (Status (Etcd (ControlPlane s ! i))) (PodRunning fl)
            \<or> etcdReported co m (Hosts s') (ControlPlane s ! i)"
    if "i < length (ControlPlane s)" for i
    using that independent_nonzero(7)[OF ind]
    by (simp add: has_or_iff) (simp add: has_def)
  obtain more where more: "Calls s' = Calls ?s2 @ more"
    using f3(5) by blast
  have "map (\<lambda>h. CallEtcdGet (Hosts s1 (Config h))) (ControlPlane s1)
      = map (\<lambda>p. CallEtcdGet (Hosts s1 p)) (map Config (ControlPlane s1))"
    by (simp add: comp_def)
  also have "\<dots> = map (\<lambda>h. CallEtcdGet (Hosts s' (Config h))) (ControlPlane s)"
    by (simp add: f1(1) hosts comp_def)
  finally show "take (Suc (length (ControlPlane s))) (drop (length (Calls s1)) (Calls s'))
      = CallEtcdMemberList # map (\<lambda>h. CallEtcdGet (Hosts s' (Config h))) (ControlPlane s)"
    by (simp add: more)
next
  show "investigateCluster fl
          (co\<lparr>etcdstatusGet := \<lambda>cfg m. (fst (etcdstatusGet co cfg m), None)\<rparr>) s
        = (s', diag, err)"
    using res by (simp add: investigateCluster_ignores_etcd_error)
qed

lemma hosts123_simps:
  "ControlPlane (exampleState hosts123) = [newHost 0, newHost 1, newHost 2]"
  "Hostname (Hosts (exampleState hosts123) 0) = ''h1''"
  "Hostname (Hosts (exampleState hosts123) 1) = ''h2''"
  "Hostname (Hosts (exampleState hosts123) 2) = ''h3''"
  "hostnames (exampleState hosts123) = [''h1'', ''h2'', ''h3'']"
  by (simp_all add: hostnames_def exampleState_simps hosts123_def storeOf_def hostNamed_def)

lemma hosts123_healthy:
  "healthy (exampleCollaborators up members nodes) (exampleState hosts123) (newHost 0)
     = (''h1'' \<in> set up)"
  "healthy (exampleCollaborators up members nodes) (exampleState hosts123) (newHost 1)
     = (''h2'' \<in> set up)"
  "healthy (exampleCollaborators up members nodes) (exampleState hosts123) (newHost 2)
     = (''h3'' \<in> set up)"
  by (simp_all add: healthy_def clearedStore_def exampleState_simps hosts123_def
      exampleCollaborators_simps storeOf_def hostNamed_def)

lemma hosts123_elected:
  "snd (leaderElection exampleFlags (exampleCollaborators [''h2'', ''h3''] members nodes)
          (exampleState hosts123))"
proof -
  let ?co = "exampleCollaborators [''h2'', ''h3''] members nodes"
  let ?s = "exampleState hosts123"
  have dist: "distinct (map Config (ControlPlane ?s))"
    by (simp add: hosts123_simps)
  have el: "leaderElection exampleFlags ?co ?s
      = (fst (leaderElection exampleFlags ?co ?s), snd (leaderElection exampleFlags ?co ?s))"
    by simp
  have "healthy ?co ?s (newHost 1)"
    by (simp add: hosts123_healthy del: One_nat_def)
  then have "\<exists>h \<in> set (ControlPlane ?s). healthy ?co ?s h"
    by (simp add: hosts123_simps)
  with election_outcome(4)[OF dist el] show ?thesis by simp
qed

theorem etcd_member_list_fatal_lookup_tolerated_witness:
  "independent exampleFlags
   \<and> IsProvisioned
        (exampleCollaborators [''h2'', ''h3''] (Inr [''h2'', ''h3'']) [''h2'', ''h3'', ''h4''])
        (Hosts (exampleState hosts123)) (ControlPlane (exampleState hosts123))
   \<and> snd (leaderElection exampleFlags
        (exampleCollaborators [''h2'', ''h3''] (Inr [''h2'', ''h3'']) [''h2'', ''h3'', ''h4''])
        (exampleState hosts123))
   \<and> \<not> has (Status (Etcd (ControlPlane (fst (investigateCluster exampleFlags
        (exampleCollaborators [''h2'', ''h3''] (Inr [''h2'', ''h3'']) [''h2'', ''h3'', ''h4''])
        (exampleState hosts123))) ! 0))) (PodRunning exampleFlags)
   \<and> has (Status (Etcd (ControlPlane (fst (investigateCluster exampleFlags
        (exampleCollaborators [''h2'', ''h3''] (Inr [''h2'', ''h3'']) [''h2'', ''h3'', ''h4''])
        (exampleState hosts123))) ! 1))) (PodRunning exampleFlags)
   \<and> has (Status (Etcd (ControlPlane (fst (investigateCluster exampleFlags
        (exampleCollaborators [''h2'', ''h3''] (Inr [''h2'', ''h3'']) [''h2'', ''h3'', ''h4''])
        (exampleState hosts123))) ! 2))) (PodRunning exampleFlags)
   \<and> snd (snd (investigateCluster exampleFlags
        (exampleCollaborators [''h2'', ''h3''] (Inr [''h2'', ''h3'']) [''h2'', ''h3'', ''h4''])
        (exampleState hosts123))) = None
   \<and> snd (snd (investigateCluster exampleFlags
        (exampleCollaborators [''h2'', ''h3'']
           (Inl (Collaborator ''etcd: context deadline exceeded'')) [''h2'', ''h3'', ''h4''])
        (exampleState hosts123))) = Some (Collaborator ''etcd: context deadline exceeded'')"
proof -
  let ?co = "exampleCollaborators [''h2'', ''h3''] (Inr [''h2'', ''h3''])
      [''h2'', ''h3'', ''h4'']"
  let ?cf = "exampleCollaborators [''h2'', ''h3'']
      (Inl (Collaborator ''etcd: context deadline exceeded'')) [''h2'', ''h3'', ''h4'']"
  let ?s = "exampleState hosts123"
  let ?r = "investigateCluster exampleFlags ?co ?s"
  let ?rf = "investigateCluster exampleFlags ?cf ?s"
  let ?s1 = "fst (leaderElection exampleFlags ?co ?s)"
  let ?sf = "fst (leaderElection exampleFlags ?cf ?s)"
  note i = independent_exampleFlags
  have prov: "IsProvisioned ?co (Hosts ?s) (ControlPlane ?s)"
    and provf: "IsProvisioned ?cf (Hosts ?s) (ControlPlane ?s)"
    by (simp_all add: exampleCollaborators_simps hosts123_simps)
  note elected = hosts123_elected[of "Inr [''h2'', ''h3'']" "[''h2'', ''h3'', ''h4'']"]
  have el: "leaderElection exampleFlags ?co ?s = (?s1, True)"
    using elected by (simp add: prod_eq_iff)
  have elf: "leaderElection exampleFlags ?cf ?s = (?sf, True)"
    using hosts123_elected[of "Inl (Collaborator ''etcd: context deadline exceeded'')"
        "[''h2'', ''h3'', ''h4'']"]
    by (simp add: prod_eq_iff)
  have res: "?r = (fst ?r, fst (snd ?r), snd (snd ?r))"
    and resf: "?rf = (fst ?rf, fst (snd ?rf), snd (snd ?rf))"
    by simp_all
  note t = etcd_member_list_fatal_lookup_tolerated[OF i prov el res]
  note tf = etcd_member_list_fatal_lookup_tolerated[OF i provf elf resf]
  have name: "Hostname (Hosts (fst ?r) p) = Hostname (Hosts ?s p)" for p
    using investigateCluster_after_election(1)[OF prov el res] leaderElection_frame(4)[OF el]
    by simp
  have rep: "\<not> etcdReported ?co [''h2'', ''h3''] (Hosts (fst ?r)) (newHost 0)"
    "etcdReported ?co [''h2'', ''h3''] (Hosts (fst ?r)) (newHost 1)"
    "etcdReported ?co [''h2'', ''h3''] (Hosts (fst ?r)) (newHost 2)"
    by (simp_all add: etcdReported_def exampleCollaborators_simps name hosts123_simps
        del: One_nat_def)
  have ml: "etcdstatusMemberList ?co = Inr [''h2'', ''h3'']"
    by (simp add: exampleCollaborators_simps)
  from t ml have bits: "\<forall>i < length (ControlPlane ?s).
      (has (Status (Etcd (ControlPlane (fst ?r) ! i))) (PodRunning exampleFlags)
         \<longleftrightarrow> has (Status (Etcd (ControlPlane ?s ! i))) (PodRunning exampleFlags)
             \<or> etcdReported ?co [''h2'', ''h3''] (Hosts (fst ?r)) (ControlPlane ?s ! i))"
    by blast
  have fresh: "\<not> has (Status (Etcd (newHost p))) (PodRunning exampleFlags)" for p
    by (simp add: newHost_def has_def)
  have b0: "\<not> has (Status (Etcd (ControlPlane (fst ?r) ! 0))) (PodRunning exampleFlags)"
    using bits[rule_format, of 0] rep(1) fresh by (simp add: hosts123_simps)
  have b1: "has (Status (Etcd (ControlPlane (fst ?r) ! 1))) (PodRunning exampleFlags)"
    using bits[rule_format, of 1] rep(2) by (simp add: hosts123_simps del: One_nat_def)
  have b2: "has (Status (Etcd (ControlPlane (fst ?r) ! 2))) (PodRunning exampleFlags)"
    using bits[rule_format, of 2] rep(3) by (simp add: hosts123_simps)
  from t ml have "?r = nodeSetReconciliation ?co (fst (etcdPhase exampleFlags ?co ?s1))"
    using res by metis
  then have ok: "snd (snd ?r) = None"
    by (simp add: nodeSetReconciliation_result[of _ ?co "[''h2'', ''h3'', ''h4'']"]
        exampleCollaborators_simps)
  have "etcdstatusMemberList ?cf = Inl (Collaborator ''etcd: context deadline exceeded'')"
    by (simp add: exampleCollaborators_simps)
  with tf have failed: "snd (snd ?rf) = Some (Collaborator ''etcd: context deadline exceeded'')"
    by blast
  from i prov elected b0 b1 b2 ok failed show ?thesis by (simp del: One_nat_def)
qed

text \<open>
  C8. Let the cluster be provisioned, a leader be elected, the etcd member list be
  fetched, the client be there or be built, and the node listing return \<open>nodes\<close>. Then
  \<open>investigateCluster\<close> returns no error and prints the two set differences of the
  hostnames of the live hosts and the listed node names: hosts to be provisioned are the
  hostnames that are no node name, nodes to be removed are the node names that are no
  hostname. A live host is in the cluster afterwards iff it was so before or its hostname
  is a listed node name; for the hosts \<^verbatim>\<open>runProbes\<close> builds, which start outside, iff
  its hostname is a listed node name.
\<close>

theorem node_set_differences:
  assumes prov: "IsProvisioned co (Hosts s) (ControlPlane s)"
    and el: "leaderElection fl co s = (s1, True)"
    and ml: "etcdstatusMemberList co = Inr m"
    and cl: "DynamicClient s \<or> BuildKubernetesClientset co = None"
    and ls: "ListNodes co = Inr nodes"
    and res: "investigateCluster fl co s = (s', diag, err)"
  shows "diag = Some \<lparr>hostsToBeProvisioned = set (hostnames s) - set nodes,
                      nodesToBeRemoved = set nodes - set (hostnames s)\<rparr>
     \<and> err = None
     \<and> length (ControlPlane s') = length (ControlPlane s)
     \<and> (\<forall>i < length (ControlPlane s).
          IsInCluster (ControlPlane s' ! i) \<longleftrightarrow>
            IsInCluster (ControlPlane s ! i)
            \<or> Hostname (Hosts s (Config (ControlPlane s ! i))) \<in> set nodes)
     \<and> ((\<forall>h \<in> set (ControlPlane s). \<not> IsInCluster h) \<longrightarrow>
          (\<forall>i < length (ControlPlane s).
             IsInCluster (ControlPlane s' ! i) \<longleftrightarrow>
               Hostname (Hosts s (Config (ControlPlane s ! i))) \<in> set nodes))"
proof -
  let ?g = "\<lambda>h. if etcdReported co m (Hosts s1) h then markEtcd fl h else h"
  let ?s2 = "s1\<lparr>ControlPlane := map ?g (ControlPlane s1),
      Calls := Calls s1 @ [CallEtcdMemberList]
        @ map (\<lambda>h. CallEtcdGet (Hosts s1 (Config h))) (ControlPlane s1)\<rparr>"
  let ?mark = "\<lambda>h. if Hostname (Hosts ?s2 (Config h)) \<in> set nodes
                    then h\<lparr>IsInCluster := True\<rparr> else h"
  note f1 = leaderElection_frame[OF el]
  have et: "etcdPhase fl co s1 = (?s2, None)"
    using ml by (simp add: etcdPhase_result)
  have r: "(s', diag, err) = nodeSetReconciliation co ?s2"
    using res by (simp add: investigateCluster_elected[OF prov el] et)
  have cl2: "DynamicClient ?s2 \<or> BuildKubernetesClientset co = None"
    using cl f1(5) by simp
  have g_frame: "Config (?g h) = Config h" "IsInCluster (?g h) = IsInCluster h" for h
    by simp_all
  have cfg2: "map Config (ControlPlane ?s2) = map Config (ControlPlane s)"
    using f1(1) by (simp add: comp_def g_frame)
  have names: "hostnames ?s2 = hostnames s"
    using cfg2 f1(4) by (intro hostnames_cong) simp_all
  note n = nodeSetReconciliation_result[OF cl2 ls, unfolded names]
  from r n have diag: "diag = Some \<lparr>hostsToBeProvisioned = set (hostnames s) - set nodes,
                      nodesToBeRemoved = set nodes - set (hostnames s)\<rparr>"
    and err: "err = None"
    and cp': "ControlPlane s' = map ?mark (map ?g (ControlPlane s1))"
    by simp_all
  have len1: "length (ControlPlane s1) = length (ControlPlane s)"
    using f1(1) by (metis length_map)
  have len: "length (ControlPlane s') = length (ControlPlane s)"
    by (simp add: cp' len1)
  have in_cluster: "IsInCluster (ControlPlane s' ! i) \<longleftrightarrow>
            IsInCluster (ControlPlane s ! i)
            \<or> Hostname (Hosts s (Config (ControlPlane s ! i))) \<in> set nodes"
    if i: "i < length (ControlPlane s)" for i
  proof -
    have c: "Config (ControlPlane s1 ! i) = Config (ControlPlane s ! i)"
      using i f1(1) len1 by (metis nth_map)
    have ic: "IsInCluster (ControlPlane s1 ! i) = IsInCluster (ControlPlane s ! i)"
      using i f1(2) len1 by (metis nth_map)
    have "ControlPlane s' ! i = ?mark (?g (ControlPlane s1 ! i))"
      using i len1 by (simp add: cp')
    then show ?thesis
      using c ic g_frame[of "ControlPlane s1 ! i"] by (simp add: f1(4))
  qed
  have fresh: "\<forall>i < length (ControlPlane s).
             IsInCluster (ControlPlane s' ! i) \<longleftrightarrow>
               Hostname (Hosts s (Config (ControlPlane s ! i))) \<in> set nodes"
    if "\<forall>h \<in> set (ControlPlane s). \<not> IsInCluster h"
    using that in_cluster by simp
  from diag err len in_cluster fresh show ?thesis by blast
qed

theorem node_set_differences_witness:
  "IsProvisioned
        (exampleCollaborators [''h2'', ''h3''] (Inr [''h2'', ''h3'']) [''h2'', ''h3'', ''h4''])
        (Hosts (exampleState hosts123)) (ControlPlane (exampleState hosts123))
   \<and> snd (leaderElection exampleFlags
        (exampleCollaborators [''h2'', ''h3''] (Inr [''h2'', ''h3'']) [''h2'', ''h3'', ''h4''])
        (exampleState hosts123))
   \<and> hostnames (exampleState hosts123) = [''h1'', ''h2'', ''h3'']
   \<and> ListNodes
        (exampleCollaborators [''h2'', ''h3''] (Inr [''h2'', ''h3'']) [''h2'', ''h3'', ''h4''])
       = Inr [''h2'', ''h3'', ''h4'']
   \<and> snd (investigateCluster exampleFlags
        (exampleCollaborators [''h2'', ''h3''] (Inr [''h2'', ''h3'']) [''h2'', ''h3'', ''h4''])
        (exampleState hosts123))
       = (Some \<lparr>hostsToBeProvisioned = {''h1''}, nodesToBeRemoved = {''h4''}\<rparr>, None)
   \<and> \<not> IsInCluster (ControlPlane (fst (investigateCluster exampleFlags
        (exampleCollaborators [''h2'', ''h3''] (Inr [''h2'', ''h3'']) [''h2'', ''h3'', ''h4''])
        (exampleState hosts123))) ! 0)
   \<and> IsInCluster (ControlPlane (fst (investigateCluster exampleFlags
        (exampleCollaborators [''h2'', ''h3''] (Inr [''h2'', ''h3'']) [''h2'', ''h3'', ''h4''])
        (exampleState hosts123))) ! 1)
   \<and> IsInCluster (ControlPlane (fst (investigateCluster exampleFlags
        (exampleCollaborators [''h2'', ''h3''] (Inr [''h2'', ''h3'']) [''h2'', ''h3'', ''h4''])
        (exampleState hosts123))) ! 2)"
proof -
  let ?co = "exampleCollaborators [''h2'', ''h3''] (Inr [''h2'', ''h3''])
      [''h2'', ''h3'', ''h4'']"
  let ?s = "exampleState hosts123"
  let ?r = "investigateCluster exampleFlags ?co ?s"
  let ?s1 = "fst (leaderElection exampleFlags ?co ?s)"
  have prov: "IsProvisioned ?co (Hosts ?s) (ControlPlane ?s)"
    by (simp add: exampleCollaborators_simps hosts123_simps)
  note elected = hosts123_elected[of "Inr [''h2'', ''h3'']" "[''h2'', ''h3'', ''h4'']"]
  have el: "leaderElection exampleFlags ?co ?s = (?s1, True)"
    using elected by (simp add: prod_eq_iff)
  have ml: "etcdstatusMemberList ?co = Inr [''h2'', ''h3'']"
    and cl: "DynamicClient ?s \<or> BuildKubernetesClientset ?co = None"
    and ls: "ListNodes ?co = Inr [''h2'', ''h3'', ''h4'']"
    by (simp_all add: exampleCollaborators_simps)
  have res: "?r = (fst ?r, fst (snd ?r), snd (snd ?r))"
    by simp
  note t = node_set_differences[OF prov el ml cl ls res]
  from t have "fst (snd ?r)
      = Some \<lparr>hostsToBeProvisioned = set (hostnames ?s) - set [''h2'', ''h3'', ''h4''],
              nodesToBeRemoved = set [''h2'', ''h3'', ''h4''] - set (hostnames ?s)\<rparr>"
    by blast
  then have d: "fst (snd ?r) = Some \<lparr>hostsToBeProvisioned = {''h1''},
      nodesToBeRemoved = {''h4''}\<rparr>"
    by (simp add: hosts123_simps insert_Diff_if)
  from t have e: "snd (snd ?r) = None"
    by blast
  from t have c: "\<forall>i < length (ControlPlane ?s).
          IsInCluster (ControlPlane (fst ?r) ! i) \<longleftrightarrow>
            IsInCluster (ControlPlane ?s ! i)
            \<or> Hostname (Hosts ?s (Config (ControlPlane ?s ! i))) \<in> set [''h2'', ''h3'', ''h4'']"
    by blast
  have fresh: "\<not> IsInCluster (newHost p)" for p
    by (simp add: newHost_def)
  have c0: "\<not> IsInCluster (ControlPlane (fst ?r) ! 0)"
    using c[rule_format, of 0] fresh by (simp add: hosts123_simps)
  have c1: "IsInCluster (ControlPlane (fst ?r) ! 1)"
    using c[rule_format, of 1] by (simp add: hosts123_simps del: One_nat_def)
  have c2: "IsInCluster (ControlPlane (fst ?r) ! 2)"
    using c[rule_format, of 2] by (simp add: hosts123_simps)
  from prov elected ls d e c0 c1 c2 show ?thesis
    by (simp add: hosts123_simps prod_eq_iff del: One_nat_def)
qed

end
